theory Spec2Isabelle
  imports Complex_Main
begin

section \<open>Data model\<close>

text \<open>
  Python floats are modelled as \<^typ>\<open>real\<close> (exact arithmetic, no rounding, no NaN or
  infinities) and Python ints as \<^typ>\<open>int\<close>. Every exception the source can raise is a
  value of \<open>error\<close>; a function that can raise returns \<open>error + 'a\<close> with \<open>Inl\<close> the
  exception.
\<close>

datatype error = ValueError | ZeroDivisionError | IndexError | KeyError | TypeError

subsection \<open>game/entities.py\<close>

text \<open>
  \<open>Ball\<close> has the fields x, y, vx, vy, radius, mass; \<open>Player\<close> has the same six and
  team_id, player_id, kick_cooldown. The records share the common fields by extension,
  so that the physics operations, which the source applies to both classes, are written
  once over \<open>body_scheme\<close>.
\<close>

record body =
  x :: real
  y :: real
  vx :: real
  vy :: real

record Ball = body +
  radius :: real
  mass :: real

record Player = Ball +
  team_id :: int
  player_id :: int
  kick_cooldown :: int

text \<open>\<open>Goal\<close>: the fields x, y, team_id carry the suffix \<open>_g\<close>.\<close>

record Goal =
  x_g :: real
  y_g :: real
  width :: real
  height :: real
  team_id_g :: int

text \<open>The properties \<open>Goal.top\<close> and \<open>Goal.bottom\<close>.\<close>

definition top_g :: "Goal \<Rightarrow> real" where
  "top_g g = y_g g - height g / 2"

definition bottom_g :: "Goal \<Rightarrow> real" where
  "bottom_g g = y_g g + height g / 2"

subsection \<open>game/state.py\<close>

datatype GameStatus = RUNNING | ENDED

text \<open>The fields of the snapshot classes carry the suffix \<open>_s\<close>. \<open>BallState\<close> has
  exactly the fields x, y, vx, vy.\<close>

type_synonym BallState = body

record PlayerState = body +
  team_id_s :: int
  player_id_s :: int
  kick_cooldown_s :: int

record GameState =
  players_s :: "PlayerState list"
  ball_s :: BallState
  score_s :: "int list"
  tick_s :: int
  status_s :: GameStatus
  field_width_s :: real
  field_height_s :: real
  goal_height_s :: real

text \<open>\<open>GameState.get_player\<close>: the loop over \<open>self.players\<close> returns the first player
  whose two identifiers match; falling off the loop raises \<open>ValueError\<close>.\<close>

fun find_player :: "PlayerState list \<Rightarrow> int \<Rightarrow> int \<Rightarrow> error + PlayerState" where
  "find_player [] t i = Inl ValueError"
| "find_player (p # ps) t i =
     (if team_id_s p = t \<and> player_id_s p = i then Inr p else find_player ps t i)"

definition get_player :: "GameState \<Rightarrow> int \<Rightarrow> int \<Rightarrow> error + PlayerState" where
  "get_player s t i = find_player (players_s s) t i"

subsection \<open>game/config.py\<close>

text \<open>
  Modelled from the spec: \<open>game/config.py\<close> is not among the sources. \<open>GameConfig\<close> is
  the record of the attributes that \<open>physics.py\<close> and \<open>engine.py\<close> read from
  \<open>self.config\<close>, every one a parameter; \<open>get_initial_player_positions(team)\<close> and
  \<open>get_initial_ball_position()\<close> are the fields \<open>initial_player_positions\<close> and
  \<open>initial_ball_position\<close>.
\<close>

record GameConfig =
  field_width :: real
  field_height :: real
  corner_radius :: real
  goal_width :: real
  goal_height :: real
  player_radius :: real
  player_mass :: real
  ball_radius :: real
  ball_mass :: real
  player_max_acceleration :: real
  player_max_speed :: real
  ball_friction :: real
  ball_max_speed :: real
  kick_range :: real
  kick_power :: real
  kick_cooldown_ticks :: int
  win_score :: int
  max_ticks :: int
  goal_celebration_ticks :: int
  initial_player_positions :: "int \<Rightarrow> (real \<times> real) list"
  initial_ball_position :: "real \<times> real"

section \<open>game/physics.py\<close>

text \<open>\<open>Physics._clamp_velocity\<close>. The division by \<open>speed\<close> raises when \<open>speed\<close> is
  zero, which the guard allows for a negative \<open>max_speed\<close>.\<close>

definition clamp_velocity :: "'a body_scheme \<Rightarrow> real \<Rightarrow> error + 'a body_scheme" where
  "clamp_velocity e max_speed =
     (let speed = sqrt ((vx e)\<^sup>2 + (vy e)\<^sup>2) in
      if speed > max_speed then
        (if speed = 0 then Inl ZeroDivisionError
         else Inr (e\<lparr>vx := vx e / speed * max_speed, vy := vy e / speed * max_speed\<rparr>))
      else Inr e)"

text \<open>\<open>Physics.apply_acceleration\<close>.\<close>

definition apply_acceleration ::
  "GameConfig \<Rightarrow> 'a body_scheme \<Rightarrow> real \<Rightarrow> real \<Rightarrow> error + 'a body_scheme" where
  "apply_acceleration cfg p ax0 ay0 =
     (let max_acc = player_max_acceleration cfg;
          acc_mag = sqrt (ax0\<^sup>2 + ay0\<^sup>2) in
      if acc_mag > max_acc \<and> acc_mag = 0 then Inl ZeroDivisionError
      else
        (let ax1 = (if acc_mag > max_acc then ax0 / acc_mag * max_acc else ax0);
             ay1 = (if acc_mag > max_acc then ay0 / acc_mag * max_acc else ay0)
         in clamp_velocity (p\<lparr>vx := vx p + ax1, vy := vy p + ay1\<rparr>) (player_max_speed cfg)))"

text \<open>\<open>Physics.update_positions\<close>: every player and the ball move by their velocity;
  the ball's velocity is then multiplied by the friction and clamped.\<close>

definition move :: "'a body_scheme \<Rightarrow> 'a body_scheme" where
  "move e = e\<lparr>x := x e + vx e, y := y e + vy e\<rparr>"

definition update_positions ::
  "GameConfig \<Rightarrow> Player list \<Rightarrow> Ball \<Rightarrow> error + (Player list \<times> Ball)" where
  "update_positions cfg ps b =
     (let b1 = move b;
          b2 = b1\<lparr>vx := vx b1 * ball_friction cfg, vy := vy b1 * ball_friction cfg\<rparr>
      in case clamp_velocity b2 (ball_max_speed cfg) of
           Inl err \<Rightarrow> Inl err
         | Inr b3 \<Rightarrow> Inr (map move ps, b3))"

text \<open>\<open>Physics._is_in_corner_region\<close>: the arc centre of the corner region that holds
  the position, if any.\<close>

definition is_in_corner_region :: "GameConfig \<Rightarrow> real \<Rightarrow> real \<Rightarrow> (real \<times> real) option" where
  "is_in_corner_region cfg px py =
     (let field_w = field_width cfg; field_h = field_height cfg; corner_r = corner_radius cfg in
      if px < corner_r \<and> py < corner_r then Some (corner_r, corner_r)
      else if px > field_w - corner_r \<and> py < corner_r then Some (field_w - corner_r, corner_r)
      else if px < corner_r \<and> py > field_h - corner_r then Some (corner_r, field_h - corner_r)
      else if px > field_w - corner_r \<and> py > field_h - corner_r
        then Some (field_w - corner_r, field_h - corner_r)
      else None)"

text \<open>\<open>Physics._enforce_boundary\<close>, the corner branch: the body of
  \<open>if corner is not None\<close>, for the arc centre \<open>(cx, cy)\<close>.\<close>

definition enforce_corner ::
  "GameConfig \<Rightarrow> 'a body_scheme \<Rightarrow> real \<Rightarrow> real \<Rightarrow> real \<times> real \<Rightarrow> 'a body_scheme" where
  "enforce_corner cfg e rad restitution c =
     (let cx = fst c; cy = snd c;
          dx = x e - cx; dy = y e - cy;
          dist = sqrt (dx\<^sup>2 + dy\<^sup>2);
          max_dist = corner_radius cfg - rad in
      if dist > max_dist then
        (if dist > 0.001 then
           (let nx = dx / dist; ny = dy / dist;
                e1 = e\<lparr>x := cx + nx * max_dist, y := cy + ny * max_dist\<rparr>;
                dot = vx e1 * nx + vy e1 * ny in
            if dot > 0
            then e1\<lparr>vx := vx e1 - 2 * dot * nx * restitution,
                    vy := vy e1 - 2 * dot * ny * restitution\<rparr>
            else e1)
         else e)
      else e)"

text \<open>The four straight-wall blocks, in the order of the source; each reads the entity
  as the blocks before it left it.\<close>

definition wall_left :: "bool \<Rightarrow> real \<Rightarrow> real \<Rightarrow> real \<Rightarrow> real \<Rightarrow> 'a body_scheme \<Rightarrow> 'a body_scheme" where
  "wall_left is_ball goal_top goal_bottom rad restitution e =
     (if x e - rad < 0 then
        (if \<not> is_ball \<or> \<not> (goal_top \<le> y e \<and> y e \<le> goal_bottom) then
           (let e1 = e\<lparr>x := rad\<rparr> in
            if vx e1 < 0 then e1\<lparr>vx := - vx e1 * restitution\<rparr> else e1)
         else e)
      else e)"

definition wall_right ::
  "bool \<Rightarrow> real \<Rightarrow> real \<Rightarrow> real \<Rightarrow> real \<Rightarrow> real \<Rightarrow> 'a body_scheme \<Rightarrow> 'a body_scheme" where
  "wall_right is_ball goal_top goal_bottom field_w rad restitution e =
     (if x e + rad > field_w then
        (if \<not> is_ball \<or> \<not> (goal_top \<le> y e \<and> y e \<le> goal_bottom) then
           (let e1 = e\<lparr>x := field_w - rad\<rparr> in
            if vx e1 > 0 then e1\<lparr>vx := - vx e1 * restitution\<rparr> else e1)
         else e)
      else e)"

definition wall_top :: "real \<Rightarrow> real \<Rightarrow> 'a body_scheme \<Rightarrow> 'a body_scheme" where
  "wall_top rad restitution e =
     (if y e - rad < 0 then
        (let e1 = e\<lparr>y := rad\<rparr> in
         if vy e1 < 0 then e1\<lparr>vy := - vy e1 * restitution\<rparr> else e1)
      else e)"

definition wall_bottom :: "real \<Rightarrow> real \<Rightarrow> real \<Rightarrow> 'a body_scheme \<Rightarrow> 'a body_scheme" where
  "wall_bottom field_h rad restitution e =
     (if y e + rad > field_h then
        (let e1 = e\<lparr>y := field_h - rad\<rparr> in
         if vy e1 > 0 then e1\<lparr>vy := - vy e1 * restitution\<rparr> else e1)
      else e)"

text \<open>\<open>Physics._enforce_boundary\<close>: the corner branch returns before the wall blocks.\<close>

definition enforce_boundary :: "GameConfig \<Rightarrow> 'a body_scheme \<Rightarrow> real \<Rightarrow> bool \<Rightarrow> 'a body_scheme" where
  "enforce_boundary cfg e rad is_ball =
     (let field_w = field_width cfg; field_h = field_height cfg;
          restitution = (if is_ball then 0.8 else 0.5);
          goal_top = field_h / 2 - goal_height cfg / 2;
          goal_bottom = field_h / 2 + goal_height cfg / 2 in
      case is_in_corner_region cfg (x e) (y e) of
        Some c \<Rightarrow> enforce_corner cfg e rad restitution c
      | None \<Rightarrow>
          wall_bottom field_h rad restitution
            (wall_top rad restitution
              (wall_right is_ball goal_top goal_bottom field_w rad restitution
                (wall_left is_ball goal_top goal_bottom rad restitution e))))"

text \<open>
  \<open>Physics._resolve_circle_collision\<close>. The result is the two entities and the returned
  flag. \<open>m2 / total_mass\<close> raises for a zero total mass, before anything is written;
  \<open>1 / m1\<close>, \<open>1 / m2\<close> and the division by their sum raise in the impulse branch.
\<close>

definition resolve_circle_collision ::
  "'a body_scheme \<Rightarrow> real \<Rightarrow> 'b body_scheme \<Rightarrow> real \<Rightarrow> real \<Rightarrow> real \<Rightarrow> real
     \<Rightarrow> error + ('a body_scheme \<times> 'b body_scheme \<times> bool)" where
  "resolve_circle_collision e1 r1 e2 r2 m1 m2 restitution =
     (let dx0 = x e2 - x e1; dy0 = y e2 - y e1;
          dist0 = sqrt (dx0\<^sup>2 + dy0\<^sup>2);
          min_dist = r1 + r2 in
      if dist0 \<ge> min_dist then Inr (e1, e2, False)
      else
        (let dx = (if dist0 < 0.001 then 1 else dx0);
             dy = (if dist0 < 0.001 then 0 else dy0);
             dist = (if dist0 < 0.001 then 1 else dist0);
             nx = dx / dist; ny = dy / dist;
             overlap = min_dist - dist;
             total_mass = m1 + m2 in
         if total_mass = 0 then Inl ZeroDivisionError
         else
           (let a1 = e1\<lparr>x := x e1 - nx * overlap * (m2 / total_mass),
                        y := y e1 - ny * overlap * (m2 / total_mass)\<rparr>;
                a2 = e2\<lparr>x := x e2 + nx * overlap * (m1 / total_mass),
                        y := y e2 + ny * overlap * (m1 / total_mass)\<rparr>;
                dvx = vx a2 - vx a1; dvy = vy a2 - vy a1;
                dvn = dvx * nx + dvy * ny in
            if dvn < 0 then
              (if m1 = 0 \<or> m2 = 0 \<or> 1 / m1 + 1 / m2 = 0 then Inl ZeroDivisionError
               else
                 (let j = - (1 + restitution) * dvn / (1 / m1 + 1 / m2) in
                  Inr (a1\<lparr>vx := vx a1 - j / m1 * nx, vy := vy a1 - j / m1 * ny\<rparr>,
                       a2\<lparr>vx := vx a2 + j / m2 * nx, vy := vy a2 + j / m2 * ny\<rparr>,
                       True)))
            else Inr (a1, a2, True))))"

text \<open>\<open>Physics.check_goal\<close>: the loop over the goals returns at the first goal that the
  ball has crossed; \<open>None\<close> when the loop ends.\<close>

fun check_goal :: "GameConfig \<Rightarrow> Ball \<Rightarrow> Goal list \<Rightarrow> int option" where
  "check_goal cfg b [] = None"
| "check_goal cfg b (g # gs) =
     (if \<not> (top_g g \<le> y b \<and> y b \<le> bottom_g g) then check_goal cfg b gs
      else if team_id_g g = 0 then
        (if x b + radius b \<le> 0 then Some (1 - team_id_g g) else check_goal cfg b gs)
      else
        (if x b - radius b \<ge> field_width cfg then Some (1 - team_id_g g)
         else check_goal cfg b gs))"

text \<open>
  \<open>Physics.handle_all_collisions\<close>. The loop over the players against the ball threads
  the ball; the nested loop over the unordered pairs mutates both players of a pair, so
  the inner loop returns the first player and the rest of the list as it left them. The
  flag is \<open>had_collision\<close>.
\<close>

fun player_ball_collisions :: "Player list \<Rightarrow> Ball \<Rightarrow> error + (Player list \<times> Ball \<times> bool)" where
  "player_ball_collisions [] b = Inr ([], b, False)"
| "player_ball_collisions (p # ps) b =
     (case resolve_circle_collision p (radius p) b (radius b) (mass p) (mass b) 0.9 of
        Inl err \<Rightarrow> Inl err
      | Inr (p', b', c) \<Rightarrow>
          (case player_ball_collisions ps b' of
             Inl err \<Rightarrow> Inl err
           | Inr (ps', b'', c') \<Rightarrow> Inr (p' # ps', b'', c \<or> c')))"

fun collide_with_rest :: "Player \<Rightarrow> Player list \<Rightarrow> error + (Player \<times> Player list \<times> bool)" where
  "collide_with_rest p1 [] = Inr (p1, [], False)"
| "collide_with_rest p1 (p2 # ps) =
     (case resolve_circle_collision p1 (radius p1) p2 (radius p2) (mass p1) (mass p2) 0.5 of
        Inl err \<Rightarrow> Inl err
      | Inr (p1', p2', c) \<Rightarrow>
          (case collide_with_rest p1' ps of
             Inl err \<Rightarrow> Inl err
           | Inr (p1'', ps', c') \<Rightarrow> Inr (p1'', p2' # ps', c \<or> c')))"

lemma collide_with_rest_length:
  "collide_with_rest p1 ps = Inr (p1', ps', c) \<Longrightarrow> length ps' = length ps"
  by (induction ps arbitrary: p1 p1' ps' c) (auto split: sum.splits prod.splits)

function player_player_collisions :: "Player list \<Rightarrow> error + (Player list \<times> bool)" where
  "player_player_collisions [] = Inr ([], False)"
| "player_player_collisions (p # ps) =
     (case collide_with_rest p ps of
        Inl err \<Rightarrow> Inl err
      | Inr (p', ps', c) \<Rightarrow>
          (case player_player_collisions ps' of
             Inl err \<Rightarrow> Inl err
           | Inr (ps'', c') \<Rightarrow> Inr (p' # ps'', c \<or> c')))"
  by pat_completeness auto
termination
  by (relation "measure length") (auto dest: collide_with_rest_length)

definition collision_pass ::
  "GameConfig \<Rightarrow> Player list \<Rightarrow> Ball \<Rightarrow> error + (Player list \<times> Ball \<times> bool)" where
  "collision_pass cfg ps b =
     (let ps1 = map (\<lambda>p. enforce_boundary cfg p (radius p) False) ps;
          b1 = enforce_boundary cfg b (radius b) True in
      case player_ball_collisions ps1 b1 of
        Inl err \<Rightarrow> Inl err
      | Inr (ps2, b2, c1) \<Rightarrow>
          (case player_player_collisions ps2 of
             Inl err \<Rightarrow> Inl err
           | Inr (ps3, c2) \<Rightarrow>
               Inr (map (\<lambda>p. enforce_boundary cfg p (radius p) False) ps3,
                    enforce_boundary cfg b2 (radius b2) True,
                    c1 \<or> c2)))"

fun collisions_loop :: "nat \<Rightarrow> GameConfig \<Rightarrow> Player list \<Rightarrow> Ball \<Rightarrow> error + (Player list \<times> Ball)" where
  "collisions_loop 0 cfg ps b = Inr (ps, b)"
| "collisions_loop (Suc n) cfg ps b =
     (case collision_pass cfg ps b of
        Inl err \<Rightarrow> Inl err
      | Inr (ps', b', had_collision) \<Rightarrow>
          if \<not> had_collision then Inr (ps', b') else collisions_loop n cfg ps' b')"

definition handle_all_collisions ::
  "GameConfig \<Rightarrow> Player list \<Rightarrow> Ball \<Rightarrow> Goal list \<Rightarrow> error + (Player list \<times> Ball)" where
  "handle_all_collisions cfg ps b gs = collisions_loop 10 cfg ps b"

section \<open>game/engine.py\<close>

subsection \<open>Actions and decision sources\<close>

text \<open>
  Modelled from the spec: \<open>agents/base.py\<close> is not among the sources. An \<open>Action\<close> is a
  requested acceleration and a kick intent; \<open>Action(0.0, 0.0)\<close>, which leaves \<open>kick\<close> to
  its default, is the neutral action (zero acceleration, no kick). An \<open>Action\<close> object is
  truthy.
\<close>

record Action =
  ax :: real
  ay :: real
  kick :: bool

definition default_action :: Action where
  "default_action = \<lparr>ax = 0, ay = 0, kick = False\<rparr>"

text \<open>
  What a call of \<open>agent.get_action(state)\<close> does: it returns an action, it raises an
  exception (one derived from \<open>Exception\<close>), or it never finishes. A decision source is
  its two identifiers (suffix \<open>_a\<close>) and this behaviour.
\<close>

datatype outcome = Returned Action | Raised | Hangs

record Agent =
  team_id_a :: int
  player_id_a :: int
  get_action :: "GameState \<Rightarrow> outcome"

type_synonym actions = "int \<times> int \<rightharpoonup> Action"

definition agent_key :: "Agent \<Rightarrow> int \<times> int" where
  "agent_key a = (team_id_a a, player_id_a a)"

text \<open>
  \<open>Game._get_agent_actions\<close>. Time is not part of the embedding: \<open>finished\<close> lists the
  indices (in \<open>all_agents\<close>) of the futures that complete before the timeout, in the
  order in which \<open>as_completed\<close> yields them.

  \<^item> \<open>collect\<close> is the loop over \<open>as_completed\<close>: a result is stored under the agent's
    key, an exception stores \<open>Action(0.0, 0.0)\<close>.
  \<^item> \<open>fill_defaults\<close> is the loop that stores \<open>Action(0.0, 0.0)\<close> under every key still
    missing.
  \<^item> \<open>ThreadPoolExecutor(max_workers=0)\<close> raises \<open>ValueError\<close>.
  \<^item> Leaving the \<open>with\<close> block shuts the executor down with \<open>wait=True\<close>, which joins
    every worker: with a call that never finishes the method never returns, which is the
    value \<open>None\<close>.
\<close>

fun collect :: "Agent list \<Rightarrow> GameState \<Rightarrow> nat list \<Rightarrow> actions \<Rightarrow> actions" where
  "collect agents st [] acts = acts"
| "collect agents st (i # is) acts =
     (if i < length agents then
        (case get_action (agents ! i) st of
           Returned a \<Rightarrow> collect agents st is (acts(agent_key (agents ! i) \<mapsto> a))
         | Raised \<Rightarrow> collect agents st is (acts(agent_key (agents ! i) \<mapsto> default_action))
         | Hangs \<Rightarrow> collect agents st is acts)
      else collect agents st is acts)"

fun fill_defaults :: "Agent list \<Rightarrow> actions \<Rightarrow> actions" where
  "fill_defaults [] acts = acts"
| "fill_defaults (a # as) acts =
     fill_defaults as
       (if acts (agent_key a) = None then acts(agent_key a \<mapsto> default_action) else acts)"

definition get_agent_actions ::
  "Agent list \<Rightarrow> GameState \<Rightarrow> nat list \<Rightarrow> (error + actions) option" where
  "get_agent_actions all_agents st finished =
     (if all_agents = [] then Some (Inl ValueError)
      else if list_ex (\<lambda>a. get_action a st = Hangs) all_agents then None
      else Some (Inr (fill_defaults all_agents (collect all_agents st finished Map.empty))))"

subsection \<open>The game\<close>

text \<open>The mutable attributes of \<open>Game\<close>; the configuration and the agents are arguments
  of the operations.\<close>

record Game =
  players :: "Player list"
  ball :: Ball
  goals :: "Goal list"
  score :: "int list"
  tick :: int
  status :: GameStatus
  goal_celebration_remaining :: int
  pending_goal_scorer :: "int option"

text \<open>\<open>PlayerState.from_player\<close>, \<open>BallState.from_ball\<close> and \<open>Game.get_state\<close>.\<close>

definition from_player :: "Player \<Rightarrow> PlayerState" where
  "from_player p =
     \<lparr>x = x p, y = y p, vx = vx p, vy = vy p,
      team_id_s = team_id p, player_id_s = player_id p, kick_cooldown_s = kick_cooldown p\<rparr>"

definition from_ball :: "Ball \<Rightarrow> BallState" where
  "from_ball b = \<lparr>x = x b, y = y b, vx = vx b, vy = vy b\<rparr>"

definition get_state :: "GameConfig \<Rightarrow> Game \<Rightarrow> GameState" where
  "get_state cfg g =
     \<lparr>players_s = map from_player (players g),
      ball_s = from_ball (ball g),
      score_s = score g,
      tick_s = tick g,
      status_s = status g,
      field_width_s = field_width cfg,
      field_height_s = field_height cfg,
      goal_height_s = goal_height cfg\<rparr>"

text \<open>Python list subscripts: \<open>xs[i]\<close> and \<open>xs[i] += 1\<close>. A subscript below zero is
  taken from the end of the list; one outside \<open>-len(xs) .. len(xs) - 1\<close> raises
  \<open>IndexError\<close>. \<open>subscript\<close> is the position that a subscript denotes in a list of
  \<open>n\<close> elements.\<close>

definition subscript :: "nat \<Rightarrow> int \<Rightarrow> error + nat" where
  "subscript n i =
     (if 0 \<le> i \<and> i < int n then Inr (nat i)
      else if i < 0 \<and> - int n \<le> i then Inr (nat (int n + i))
      else Inl IndexError)"

definition py_index :: "'a list \<Rightarrow> int \<Rightarrow> error + 'a" where
  "py_index xs i =
     (case subscript (length xs) i of Inl err \<Rightarrow> Inl err | Inr k \<Rightarrow> Inr (xs ! k))"

definition py_incr :: "int list \<Rightarrow> int \<Rightarrow> error + int list" where
  "py_incr xs i =
     (case subscript (length xs) i of
        Inl err \<Rightarrow> Inl err
      | Inr k \<Rightarrow> Inr (xs[k := xs ! k + 1]))"

text \<open>
  The draws of \<open>random.uniform\<close> are arguments: the angle and the speed of the ball, and
  for the player at position \<open>k\<close> of \<open>self.players\<close> the two jitters.
\<close>

record Draws =
  angle :: real
  speed :: real
  jitter :: "nat \<Rightarrow> real \<times> real"

text \<open>\<open>Game._setup_players\<close>, \<open>_setup_ball\<close>, \<open>_setup_goals\<close> and the constructor.\<close>

definition setup_team :: "GameConfig \<Rightarrow> int \<Rightarrow> Player list" where
  "setup_team cfg t =
     map (\<lambda>(i, pos).
            \<lparr>x = fst pos, y = snd pos, vx = 0, vy = 0,
             radius = player_radius cfg, mass = player_mass cfg,
             team_id = t, player_id = int i, kick_cooldown = 0\<rparr>)
         (enumerate 0 (initial_player_positions cfg t))"

definition setup_players :: "GameConfig \<Rightarrow> Player list" where
  "setup_players cfg = setup_team cfg 0 @ setup_team cfg 1"

definition setup_ball :: "GameConfig \<Rightarrow> Draws \<Rightarrow> Ball" where
  "setup_ball cfg d =
     \<lparr>x = fst (initial_ball_position cfg), y = snd (initial_ball_position cfg),
      vx = cos (angle d) * speed d, vy = sin (angle d) * speed d,
      radius = ball_radius cfg, mass = ball_mass cfg\<rparr>"

definition setup_goals :: "GameConfig \<Rightarrow> Goal list" where
  "setup_goals cfg =
     [\<lparr>x_g = 0, y_g = field_height cfg / 2, width = goal_width cfg,
       height = goal_height cfg, team_id_g = 0\<rparr>,
      \<lparr>x_g = field_width cfg, y_g = field_height cfg / 2, width = goal_width cfg,
       height = goal_height cfg, team_id_g = 1\<rparr>]"

definition new_game :: "GameConfig \<Rightarrow> Draws \<Rightarrow> Game" where
  "new_game cfg d =
     \<lparr>players = setup_players cfg, ball = setup_ball cfg d, goals = setup_goals cfg,
      score = [0, 0], tick = 0, status = RUNNING,
      goal_celebration_remaining = 0, pending_goal_scorer = None\<rparr>"

text \<open>\<open>Game.reset_positions\<close>. The players are reset in the order of the list, \<open>k\<close> the
  position of the first one; \<open>agent.reset()\<close> does not touch the game.\<close>

fun reset_players :: "GameConfig \<Rightarrow> Draws \<Rightarrow> nat \<Rightarrow> Player list \<Rightarrow> error + Player list" where
  "reset_players cfg d k [] = Inr []"
| "reset_players cfg d k (p # ps) =
     (case py_index (initial_player_positions cfg (if team_id p = 0 then 0 else 1)) (player_id p) of
        Inl err \<Rightarrow> Inl err
      | Inr pos \<Rightarrow>
          (case reset_players cfg d (Suc k) ps of
             Inl err \<Rightarrow> Inl err
           | Inr ps' \<Rightarrow>
               Inr (p\<lparr>x := fst pos + fst (jitter d k), y := snd pos + snd (jitter d k),
                      vx := 0, vy := 0, kick_cooldown := 0\<rparr> # ps')))"

definition reset_positions :: "GameConfig \<Rightarrow> Draws \<Rightarrow> Game \<Rightarrow> error + Game" where
  "reset_positions cfg d g =
     (let b = (ball g)\<lparr>x := fst (initial_ball_position cfg), y := snd (initial_ball_position cfg),
                       vx := cos (angle d) * speed d, vy := sin (angle d) * speed d\<rparr> in
      case reset_players cfg d 0 (players g) of
        Inl err \<Rightarrow> Inl err
      | Inr ps \<Rightarrow> Inr (g\<lparr>players := ps, ball := b\<rparr>))"

text \<open>
  \<open>Game._process_kicks\<close>: \<open>kick_player\<close> is the body of the loop for one player, on the
  ball as the players before left it.
\<close>

definition kick_player :: "GameConfig \<Rightarrow> actions \<Rightarrow> Player \<Rightarrow> Ball \<Rightarrow> Player \<times> Ball" where
  "kick_player cfg acts p b =
     (let action = acts (team_id p, player_id p);
          p1 = (if kick_cooldown p > 0 then p\<lparr>kick_cooldown := kick_cooldown p - 1\<rparr> else p) in
      if (case action of None \<Rightarrow> False | Some a \<Rightarrow> kick a) \<and> kick_cooldown p1 = 0 then
        (let dx = x b - x p1; dy = y b - y p1;
             dist = sqrt (dx\<^sup>2 + dy\<^sup>2) in
         if dist \<le> kick_range cfg then
           (let b1 =
              (if dist > 0.001 then
                 (let nx = dx / dist; ny = dy / dist in
                  b\<lparr>vx := vx b + nx * kick_power cfg, vy := vy b + ny * kick_power cfg\<rparr>)
               else
                 (let player_speed = sqrt ((vx p1)\<^sup>2 + (vy p1)\<^sup>2) in
                  if player_speed > 0.001 then
                    b\<lparr>vx := vx b + (vx p1 / player_speed) * kick_power cfg,
                      vy := vy b + (vy p1 / player_speed) * kick_power cfg\<rparr>
                  else b))
            in (p1\<lparr>kick_cooldown := kick_cooldown_ticks cfg\<rparr>, b1))
         else (p1, b))
      else (p1, b))"

fun process_kicks :: "GameConfig \<Rightarrow> actions \<Rightarrow> Player list \<Rightarrow> Ball \<Rightarrow> Player list \<times> Ball" where
  "process_kicks cfg acts [] b = ([], b)"
| "process_kicks cfg acts (p # ps) b =
     (let (p', b') = kick_player cfg acts p b;
          (ps', b'') = process_kicks cfg acts ps b'
      in (p' # ps', b''))"

text \<open>The loop of \<open>step\<close> that applies the actions to the players.\<close>

fun apply_actions :: "GameConfig \<Rightarrow> actions \<Rightarrow> Player list \<Rightarrow> error + Player list" where
  "apply_actions cfg acts [] = Inr []"
| "apply_actions cfg acts (p # ps) =
     (case (case acts (team_id p, player_id p) of
              None \<Rightarrow> Inr p
            | Some a \<Rightarrow> apply_acceleration cfg p (ax a) (ay a)) of
        Inl err \<Rightarrow> Inl err
      | Inr p' \<Rightarrow>
          (case apply_actions cfg acts ps of
             Inl err \<Rightarrow> Inl err
           | Inr ps' \<Rightarrow> Inr (p' # ps')))"

text \<open>
  \<open>Game.step\<close>. The result is \<open>None\<close> when the call never returns, \<open>Some (Inl err)\<close> when
  it raises, and otherwise the game after the call and the returned scoring team. The
  logger does not touch the game and is left out.

  \<open>finish_tick\<close> is the end of \<open>step\<close> (advance the tick, check the time limit);
  \<open>step_celebration\<close> and \<open>step_play\<close> are the two branches.
\<close>

definition finish_tick :: "GameConfig \<Rightarrow> Game \<Rightarrow> int option \<Rightarrow> Game \<times> int option" where
  "finish_tick cfg g scoring_team =
     (let g1 = g\<lparr>tick := tick g + 1\<rparr> in
      (if tick g1 \<ge> max_ticks cfg then g1\<lparr>status := ENDED\<rparr> else g1, scoring_team))"

definition end_celebration :: "GameConfig \<Rightarrow> Draws \<Rightarrow> Game \<Rightarrow> int \<Rightarrow> error + Game" where
  "end_celebration cfg d g scoring_team =
     (case py_incr (score g) scoring_team of
        Inl err \<Rightarrow> Inl err
      | Inr sc \<Rightarrow>
          (case reset_positions cfg d (g\<lparr>score := sc\<rparr>) of
             Inl err \<Rightarrow> Inl err
           | Inr g1 \<Rightarrow>
               (let g2 = g1\<lparr>pending_goal_scorer := None\<rparr> in
                case py_index (score g2) scoring_team of
                  Inl err \<Rightarrow> Inl err
                | Inr v \<Rightarrow> Inr (if v \<ge> win_score cfg then g2\<lparr>status := ENDED\<rparr> else g2))))"

definition step_celebration :: "GameConfig \<Rightarrow> Draws \<Rightarrow> Game \<Rightarrow> error + (Game \<times> int option)" where
  "step_celebration cfg d g =
     (case update_positions cfg (players g) (ball g) of
        Inl err \<Rightarrow> Inl err
      | Inr (ps1, b1) \<Rightarrow>
          (case handle_all_collisions cfg ps1 b1 (goals g) of
             Inl err \<Rightarrow> Inl err
           | Inr (ps2, b2) \<Rightarrow>
               (let g1 = g\<lparr>players := ps2, ball := b2,
                           goal_celebration_remaining := goal_celebration_remaining g - 1\<rparr> in
                if goal_celebration_remaining g1 = 0 \<and> pending_goal_scorer g1 \<noteq> None then
                  (case end_celebration cfg d g1 (the (pending_goal_scorer g1)) of
                     Inl err \<Rightarrow> Inl err
                   | Inr g2 \<Rightarrow> Inr (finish_tick cfg g2 (pending_goal_scorer g1)))
                else Inr (finish_tick cfg g1 None))))"

definition step_play :: "GameConfig \<Rightarrow> actions \<Rightarrow> Game \<Rightarrow> error + (Game \<times> int option)" where
  "step_play cfg acts g =
     (case apply_actions cfg acts (players g) of
        Inl err \<Rightarrow> Inl err
      | Inr ps1 \<Rightarrow>
          (let (ps2, b2) = process_kicks cfg acts ps1 (ball g) in
           case update_positions cfg ps2 b2 of
             Inl err \<Rightarrow> Inl err
           | Inr (ps3, b3) \<Rightarrow>
               (case handle_all_collisions cfg ps3 b3 (goals g) of
                  Inl err \<Rightarrow> Inl err
                | Inr (ps4, b4) \<Rightarrow>
                    (let g1 = g\<lparr>players := ps4, ball := b4\<rparr> in
                     case check_goal cfg (ball g1) (goals g1) of
                       None \<Rightarrow> Inr (finish_tick cfg g1 None)
                     | Some detected_scorer \<Rightarrow>
                         Inr (finish_tick cfg
                                (g1\<lparr>goal_celebration_remaining := goal_celebration_ticks cfg,
                                    pending_goal_scorer := Some detected_scorer\<rparr>)
                                (Some detected_scorer))))))"

definition step ::
  "GameConfig \<Rightarrow> Agent list \<Rightarrow> nat list \<Rightarrow> Draws \<Rightarrow> Game \<Rightarrow> (error + (Game \<times> int option)) option" where
  "step cfg all_agents finished d g =
     (if status g \<noteq> RUNNING then Some (Inr (g, None))
      else if goal_celebration_remaining g > 0 then Some (step_celebration cfg d g)
      else
        (case get_agent_actions all_agents (get_state cfg g) finished of
           None \<Rightarrow> None
         | Some (Inl err) \<Rightarrow> Some (Inl err)
         | Some (Inr acts) \<Rightarrow> Some (step_play cfg acts g)))"

section \<open>Snapshot lookup\<close>

lemma find_player_found:
  "\<exists>p \<in> set ps. team_id_s p = t \<and> player_id_s p = i \<Longrightarrow>
   \<exists>p. find_player ps t i = Inr p \<and> p \<in> set ps \<and> team_id_s p = t \<and> player_id_s p = i"
  by (induction ps) auto

lemma find_player_missing:
  "\<forall>p \<in> set ps. \<not> (team_id_s p = t \<and> player_id_s p = i) \<Longrightarrow>
   find_player ps t i = Inl ValueError"
  by (induction ps) auto

text \<open>
  C9. For every GameState, \<open>get_player team_id player_id\<close> returns a contained
  PlayerState whose team and player identifiers both match when one exists, and raises
  \<open>ValueError\<close> when no contained player matches; it never returns a default.
\<close>

theorem get_player_found_or_raises:
  "((\<exists>p \<in> set (players_s s). team_id_s p = t \<and> player_id_s p = i) \<longrightarrow>
      (\<exists>p. get_player s t i = Inr p \<and> p \<in> set (players_s s)
           \<and> team_id_s p = t \<and> player_id_s p = i))
   \<and> ((\<forall>p \<in> set (players_s s). \<not> (team_id_s p = t \<and> player_id_s p = i)) \<longrightarrow>
      get_player s t i = Inl ValueError)"
  unfolding get_player_def
  using find_player_found [of "players_s s" t i] find_player_missing [of "players_s s" t i]
  by blast

definition example_state :: GameState where
  "example_state =
     \<lparr>players_s =
        [\<lparr>x = 250, y = 300, vx = 0, vy = 0, team_id_s = 0, player_id_s = 0, kick_cooldown_s = 0\<rparr>,
         \<lparr>x = 750, y = 300, vx = 0, vy = 0, team_id_s = 1, player_id_s = 0, kick_cooldown_s = 0\<rparr>],
      ball_s = \<lparr>x = 500, y = 300, vx = 0, vy = 0\<rparr>,
      score_s = [0, 0], tick_s = 0, status_s = RUNNING,
      field_width_s = 1000, field_height_s = 600, goal_height_s = 120\<rparr>"

theorem get_player_found_or_raises_witness:
  "(\<exists>p \<in> set (players_s example_state). team_id_s p = 1 \<and> player_id_s p = 0)
   \<and> (\<exists>p. get_player example_state 1 0 = Inr p \<and> p \<in> set (players_s example_state)
           \<and> team_id_s p = 1 \<and> player_id_s p = 0)
   \<and> \<not> (\<exists>p \<in> set (players_s example_state). team_id_s p = 1 \<and> player_id_s p = 7)
   \<and> get_player example_state 1 7 = Inl ValueError"
proof -
  have present: "\<exists>p \<in> set (players_s example_state). team_id_s p = 1 \<and> player_id_s p = 0"
    by (simp add: example_state_def)
  have absent: "\<forall>p \<in> set (players_s example_state). \<not> (team_id_s p = 1 \<and> player_id_s p = 7)"
    by (simp add: example_state_def)
  from present absent
    get_player_found_or_raises [of example_state 1 0]
    get_player_found_or_raises [of example_state 1 7]
  show ?thesis by blast
qed

text \<open>An example configuration: the field and the radii of the repository's tests,
  the acceleration and kick range its agents assume, and values chosen for the rest.\<close>

definition example_config :: GameConfig where
  "example_config =
     \<lparr>field_width = 1000, field_height = 600, corner_radius = 60,
      goal_width = 10, goal_height = 120,
      player_radius = 20, player_mass = 1, ball_radius = 10, ball_mass = 0.5,
      player_max_acceleration = 0.5, player_max_speed = 5,
      ball_friction = 0.98, ball_max_speed = 15,
      kick_range = 40, kick_power = 10, kick_cooldown_ticks = 10,
      win_score = 5, max_ticks = 3000, goal_celebration_ticks = 60,
      initial_player_positions = (\<lambda>t. if t = 0 then [(250, 300)] else [(750, 300)]),
      initial_ball_position = (500, 300)\<rparr>"

section \<open>Goal detection\<close>

lemma check_goal_setup:
  "check_goal cfg b (setup_goals cfg) =
     (if top_g (hd (setup_goals cfg)) \<le> y b \<and> y b \<le> bottom_g (hd (setup_goals cfg)) then
        (if x b + radius b \<le> 0 then Some 1
         else if x b - radius b \<ge> field_width cfg then Some 0 else None)
      else None)"
  by (simp add: setup_goals_def top_g_def bottom_g_def)

lemma setup_goals_span:
  "g \<in> set (setup_goals cfg) \<Longrightarrow> top_g g = top_g (hd (setup_goals cfg)) \<and> bottom_g g = bottom_g (hd (setup_goals cfg))"
  by (auto simp: setup_goals_def top_g_def bottom_g_def)

text \<open>
  C2. On the two goals of the game, for a ball of non-negative radius on a field of
  positive width whose y-coordinate lies within a goal's vertical span, \<open>check_goal\<close>
  returns the opponent of that goal's defending team exactly when the whole ball has
  crossed that goal's line (\<open>x + radius \<le> 0\<close> for the left goal, \<open>x - radius \<ge>
  field_width\<close> for the right goal), and returns \<open>None\<close> exactly when neither holds. A
  ball centred at \<open>- radius - 0.01\<close> scores for team 1; one centred at
  \<open>- radius + 0.01\<close> does not score (on a field wider than 0.01).
\<close>

theorem check_goal_exact:
  assumes "g \<in> set (setup_goals cfg)" and "top_g g \<le> y b" and "y b \<le> bottom_g g"
    and "0 \<le> radius b" and "0 < field_width cfg"
  shows "((check_goal cfg b (setup_goals cfg) = Some (1 - team_id_g g)) =
            (if team_id_g g = 0 then x b + radius b \<le> 0 else x b - radius b \<ge> field_width cfg))
    \<and> ((check_goal cfg b (setup_goals cfg) = None) =
            (\<not> x b + radius b \<le> 0 \<and> \<not> x b - radius b \<ge> field_width cfg))
    \<and> (x b = - radius b - 0.01 \<longrightarrow> check_goal cfg b (setup_goals cfg) = Some 1)
    \<and> (x b = - radius b + 0.01 \<and> 0.01 < field_width cfg \<longrightarrow> check_goal cfg b (setup_goals cfg) = None)"
proof -
  have span: "top_g (hd (setup_goals cfg)) \<le> y b \<and> y b \<le> bottom_g (hd (setup_goals cfg))"
    using assms(1-3) setup_goals_span [of g cfg] by simp
  have team: "team_id_g g = 0 \<or> team_id_g g = 1"
    using assms(1) by (auto simp: setup_goals_def)
  show ?thesis
    using span team assms(4,5) by (auto simp: check_goal_setup)
qed

definition example_ball :: "real \<Rightarrow> Ball" where
  "example_ball bx = \<lparr>x = bx, y = 300, vx = -1, vy = 0, radius = 10, mass = 0.5\<rparr>"

theorem check_goal_exact_witness:
  "check_goal example_config (example_ball (-10.01)) (setup_goals example_config) = Some 1
   \<and> check_goal example_config (example_ball (-9.99)) (setup_goals example_config) = None
   \<and> check_goal example_config (example_ball 1010) (setup_goals example_config) = Some 0"
proof -
  let ?g0 = "hd (setup_goals example_config)"
  let ?g1 = "last (setup_goals example_config)"
  have g0: "?g0 \<in> set (setup_goals example_config)" and g1: "?g1 \<in> set (setup_goals example_config)"
    by (simp_all add: setup_goals_def)
  have t: "team_id_g ?g0 = 0" "team_id_g ?g1 = 1" by (simp_all add: setup_goals_def)
  have s0: "top_g ?g0 \<le> 300" "300 \<le> bottom_g ?g0" "top_g ?g1 \<le> 300" "300 \<le> bottom_g ?g1"
    by (simp_all add: setup_goals_def top_g_def bottom_g_def example_config_def)
  have w: "0 < field_width example_config" "0.01 < field_width example_config" "field_width example_config = 1000"
    by (simp_all add: example_config_def)
  have a: "check_goal example_config (example_ball (-10.01)) (setup_goals example_config) = Some 1"
    using check_goal_exact [of ?g0 example_config "example_ball (-10.01)"] g0 s0 w
    by (simp add: example_ball_def)
  have b: "check_goal example_config (example_ball (-9.99)) (setup_goals example_config) = None"
    using check_goal_exact [of ?g0 example_config "example_ball (-9.99)"] g0 s0 w
    by (simp add: example_ball_def)
  have c: "check_goal example_config (example_ball 1010) (setup_goals example_config) = Some 0"
    using check_goal_exact [of ?g1 example_config "example_ball 1010"] g1 s0 w t
    by (simp add: example_ball_def)
  show ?thesis using a b c by simp
qed

section \<open>Collision resolution\<close>

lemma unit_normal:
  fixes dx dy d :: real
  assumes "0 < d" and "d = sqrt (dx\<^sup>2 + dy\<^sup>2)"
  shows "(dx / d)\<^sup>2 + (dy / d)\<^sup>2 = 1"
proof -
  have sq: "d\<^sup>2 = dx\<^sup>2 + dy\<^sup>2" using assms(2) by simp
  have "(dx / d)\<^sup>2 + (dy / d)\<^sup>2 = (dx\<^sup>2 + dy\<^sup>2) / d\<^sup>2"
    by (simp only: power_divide add_divide_distrib)
  also have "\<dots> = d\<^sup>2 / d\<^sup>2" by (simp only: sq)
  also have "\<dots> = 1" using assms(1) by simp
  finally show ?thesis .
qed

lemma scaled_normal_length:
  fixes nx ny c :: real
  assumes "nx\<^sup>2 + ny\<^sup>2 = 1"
  shows "sqrt ((nx * c)\<^sup>2 + (ny * c)\<^sup>2) = \<bar>c\<bar>"
proof -
  have "(nx * c)\<^sup>2 + (ny * c)\<^sup>2 = (nx\<^sup>2 + ny\<^sup>2) * c\<^sup>2"
    by (simp add: power_mult_distrib algebra_simps)
  then show ?thesis using assms by simp
qed

text \<open>The positions that a resolved collision writes, whichever way the impulse goes.\<close>

lemma resolve_positions:
  fixes e1 :: "'a body_scheme" and e2 :: "'b body_scheme"
  assumes "m1 + m2 \<noteq> 0" and "m1 \<noteq> 0" and "m2 \<noteq> 0"
    and "0.001 \<le> sqrt ((x e2 - x e1)\<^sup>2 + (y e2 - y e1)\<^sup>2)"
    and "sqrt ((x e2 - x e1)\<^sup>2 + (y e2 - y e1)\<^sup>2) < r1 + r2"
  shows "\<exists>a1 a2. resolve_circle_collision e1 r1 e2 r2 m1 m2 rest = Inr (a1, a2, True)
     \<and> x a1 = x e1 - (x e2 - x e1) / sqrt ((x e2 - x e1)\<^sup>2 + (y e2 - y e1)\<^sup>2)
                     * (r1 + r2 - sqrt ((x e2 - x e1)\<^sup>2 + (y e2 - y e1)\<^sup>2)) * (m2 / (m1 + m2))
     \<and> y a1 = y e1 - (y e2 - y e1) / sqrt ((x e2 - x e1)\<^sup>2 + (y e2 - y e1)\<^sup>2)
                     * (r1 + r2 - sqrt ((x e2 - x e1)\<^sup>2 + (y e2 - y e1)\<^sup>2)) * (m2 / (m1 + m2))
     \<and> x a2 = x e2 + (x e2 - x e1) / sqrt ((x e2 - x e1)\<^sup>2 + (y e2 - y e1)\<^sup>2)
                     * (r1 + r2 - sqrt ((x e2 - x e1)\<^sup>2 + (y e2 - y e1)\<^sup>2)) * (m1 / (m1 + m2))
     \<and> y a2 = y e2 + (y e2 - y e1) / sqrt ((x e2 - x e1)\<^sup>2 + (y e2 - y e1)\<^sup>2)
                     * (r1 + r2 - sqrt ((x e2 - x e1)\<^sup>2 + (y e2 - y e1)\<^sup>2)) * (m1 / (m1 + m2))"
proof -
  have nz: "1 / m1 + 1 / m2 \<noteq> 0"
  proof
    assume "1 / m1 + 1 / m2 = 0"
    then have "(m2 + m1) / (m1 * m2) = 0" using assms(2,3) by (simp add: add_frac_eq)
    then show False using assms(1,2,3) by simp
  qed
  have nclose: "\<not> sqrt ((x e2 - x e1)\<^sup>2 + (y e2 - y e1)\<^sup>2) < 0.001" using assms(4) by simp
  have nfar: "\<not> r1 + r2 \<le> sqrt ((x e2 - x e1)\<^sup>2 + (y e2 - y e1)\<^sup>2)" using assms(5) by simp
  show ?thesis
    unfolding resolve_circle_collision_def Let_def
    using nz nclose nfar assms(1,2,3) by simp
qed

text \<open>
  C6, amended. For two overlapping circles of positive masses \<open>m1\<close> and \<open>m2\<close> whose
  centres are at least 0.001 apart, \<open>resolve_circle_collision\<close> reports a collision
  and displaces each circle along the contact normal (the first against it, the second
  along it) by \<open>overlap * (other mass) / (m1 + m2)\<close>; after the call the centres are
  exactly \<open>r1 + r2\<close> apart. For \<open>m1 = 1\<close>, \<open>m2 = 3\<close> and overlap 10 the first circle
  moves 7.5 and the second 2.5.
\<close>

theorem resolve_separates_overlap:
  fixes e1 :: "'a body_scheme" and e2 :: "'b body_scheme"
  assumes "0 < m1" and "0 < m2"
    and "0.001 \<le> sqrt ((x e2 - x e1)\<^sup>2 + (y e2 - y e1)\<^sup>2)"
    and "sqrt ((x e2 - x e1)\<^sup>2 + (y e2 - y e1)\<^sup>2) < r1 + r2"
  shows "\<exists>a1 a2 nx ny overlap.
       resolve_circle_collision e1 r1 e2 r2 m1 m2 rest = Inr (a1, a2, True)
     \<and> nx = (x e2 - x e1) / sqrt ((x e2 - x e1)\<^sup>2 + (y e2 - y e1)\<^sup>2)
     \<and> ny = (y e2 - y e1) / sqrt ((x e2 - x e1)\<^sup>2 + (y e2 - y e1)\<^sup>2)
     \<and> overlap = r1 + r2 - sqrt ((x e2 - x e1)\<^sup>2 + (y e2 - y e1)\<^sup>2)
     \<and> x a1 = x e1 - nx * (overlap * (m2 / (m1 + m2)))
     \<and> y a1 = y e1 - ny * (overlap * (m2 / (m1 + m2)))
     \<and> x a2 = x e2 + nx * (overlap * (m1 / (m1 + m2)))
     \<and> y a2 = y e2 + ny * (overlap * (m1 / (m1 + m2)))
     \<and> sqrt ((x a1 - x e1)\<^sup>2 + (y a1 - y e1)\<^sup>2) = overlap * (m2 / (m1 + m2))
     \<and> sqrt ((x a2 - x e2)\<^sup>2 + (y a2 - y e2)\<^sup>2) = overlap * (m1 / (m1 + m2))
     \<and> sqrt ((x a2 - x a1)\<^sup>2 + (y a2 - y a1)\<^sup>2) = r1 + r2
     \<and> (m1 = 1 \<and> m2 = 3 \<and> overlap = 10 \<longrightarrow>
          sqrt ((x a1 - x e1)\<^sup>2 + (y a1 - y e1)\<^sup>2) = 7.5
        \<and> sqrt ((x a2 - x e2)\<^sup>2 + (y a2 - y e2)\<^sup>2) = 2.5)"
proof -
  define d where "d = sqrt ((x e2 - x e1)\<^sup>2 + (y e2 - y e1)\<^sup>2)"
  define nx where "nx = (x e2 - x e1) / d"
  define ny where "ny = (y e2 - y e1) / d"
  define ov where "ov = r1 + r2 - d"
  define k1 where "k1 = m1 / (m1 + m2)"
  define k2 where "k2 = m2 / (m1 + m2)"
  have far: "0.001 \<le> d" and near: "d < r1 + r2"
    using assms(3,4) unfolding d_def by simp_all
  have "(0::real) < 0.001" by simp
  then have dpos: "0 < d" using far by (rule less_le_trans)
  have ovpos: "0 < ov" using near unfolding ov_def by linarith
  have unit: "nx\<^sup>2 + ny\<^sup>2 = 1"
    unfolding nx_def ny_def using dpos d_def by (rule unit_normal)
  have k: "0 < k1" "0 < k2" "k1 + k2 = 1"
    using assms(1,2) by (simp_all add: k1_def k2_def flip: add_divide_distrib)
  obtain a1 a2 where res: "resolve_circle_collision e1 r1 e2 r2 m1 m2 rest = Inr (a1, a2, True)"
    and xa1: "x a1 = x e1 - nx * ov * k2" and ya1: "y a1 = y e1 - ny * ov * k2"
    and xa2: "x a2 = x e2 + nx * ov * k1" and ya2: "y a2 = y e2 + ny * ov * k1"
    using resolve_positions [of m1 m2 e2 e1 r1 r2 rest] assms
    unfolding nx_def ny_def ov_def d_def k1_def k2_def by auto
  have len1: "sqrt ((x a1 - x e1)\<^sup>2 + (y a1 - y e1)\<^sup>2) = ov * k2"
  proof -
    have "sqrt ((nx * (- (ov * k2)))\<^sup>2 + (ny * (- (ov * k2)))\<^sup>2) = \<bar>- (ov * k2)\<bar>"
      using unit by (rule scaled_normal_length)
    moreover have "0 \<le> ov * k2" using ovpos k(2) by simp
    ultimately show ?thesis by (simp add: xa1 ya1 algebra_simps)
  qed
  have len2: "sqrt ((x a2 - x e2)\<^sup>2 + (y a2 - y e2)\<^sup>2) = ov * k1"
  proof -
    have "sqrt ((nx * (ov * k1))\<^sup>2 + (ny * (ov * k1))\<^sup>2) = \<bar>ov * k1\<bar>"
      using unit by (rule scaled_normal_length)
    moreover have "0 \<le> ov * k1" using ovpos k(1) by simp
    ultimately show ?thesis by (simp add: xa2 ya2 algebra_simps)
  qed
  have dx: "x e2 - x e1 = nx * d" and dy: "y e2 - y e1 = ny * d"
    using dpos by (simp_all add: nx_def ny_def)
  have sep: "sqrt ((x a2 - x a1)\<^sup>2 + (y a2 - y a1)\<^sup>2) = r1 + r2"
  proof -
    have "x a2 - x a1 = nx * d + nx * ov * (k1 + k2)"
      using dx by (simp add: xa1 xa2 algebra_simps)
    then have gx: "x a2 - x a1 = nx * (r1 + r2)" by (simp add: k(3) ov_def algebra_simps)
    have "y a2 - y a1 = ny * d + ny * ov * (k1 + k2)"
      using dy by (simp add: ya1 ya2 algebra_simps)
    then have gy: "y a2 - y a1 = ny * (r1 + r2)" by (simp add: k(3) ov_def algebra_simps)
    have "sqrt ((nx * (r1 + r2))\<^sup>2 + (ny * (r1 + r2))\<^sup>2) = \<bar>r1 + r2\<bar>"
      using unit by (rule scaled_normal_length)
    moreover have "0 \<le> r1 + r2" using dpos near by linarith
    ultimately show ?thesis by (simp add: gx gy)
  qed
  have special: "m1 = 1 \<and> m2 = 3 \<and> ov = 10 \<longrightarrow>
          sqrt ((x a1 - x e1)\<^sup>2 + (y a1 - y e1)\<^sup>2) = 7.5
        \<and> sqrt ((x a2 - x e2)\<^sup>2 + (y a2 - y e2)\<^sup>2) = 2.5"
    unfolding len1 len2 by (simp add: k1_def k2_def)
  have nx_eq: "nx = (x e2 - x e1) / sqrt ((x e2 - x e1)\<^sup>2 + (y e2 - y e1)\<^sup>2)"
    and ny_eq: "ny = (y e2 - y e1) / sqrt ((x e2 - x e1)\<^sup>2 + (y e2 - y e1)\<^sup>2)"
    and ov_eq: "ov = r1 + r2 - sqrt ((x e2 - x e1)\<^sup>2 + (y e2 - y e1)\<^sup>2)"
    by (simp_all add: nx_def ny_def ov_def d_def)
  have p1: "x a1 = x e1 - nx * (ov * (m2 / (m1 + m2)))"
    and p2: "y a1 = y e1 - ny * (ov * (m2 / (m1 + m2)))"
    and p3: "x a2 = x e2 + nx * (ov * (m1 / (m1 + m2)))"
    and p4: "y a2 = y e2 + ny * (ov * (m1 / (m1 + m2)))"
    by (simp_all only: xa1 ya1 xa2 ya2 k1_def k2_def mult.assoc)
  have l1: "sqrt ((x a1 - x e1)\<^sup>2 + (y a1 - y e1)\<^sup>2) = ov * (m2 / (m1 + m2))"
    and l2: "sqrt ((x a2 - x e2)\<^sup>2 + (y a2 - y e2)\<^sup>2) = ov * (m1 / (m1 + m2))"
    by (simp_all only: len1 len2 k1_def k2_def)
  from res nx_eq ny_eq ov_eq p1 p2 p3 p4 l1 l2 sep special
  show ?thesis by blast
qed

theorem resolve_separates_overlap_witness:
  "(0::real) < 1 \<and> (0::real) < 3
   \<and> (0.001::real) \<le> sqrt ((30 - 0)\<^sup>2 + (0 - 0)\<^sup>2)
   \<and> sqrt ((30 - 0)\<^sup>2 + (0 - 0)\<^sup>2) < (20::real) + 20
   \<and> (\<exists>a1 a2. resolve_circle_collision \<lparr>x = 0, y = 0, vx = 0, vy = 0\<rparr> 20
                  \<lparr>x = 30, y = 0, vx = 0, vy = 0\<rparr> 20 1 3 0.5 = Inr (a1, a2, True)
        \<and> x a1 = - 7.5 \<and> y a1 = 0 \<and> x a2 = 32.5 \<and> y a2 = 0
        \<and> sqrt ((x a1 - 0)\<^sup>2 + (y a1 - 0)\<^sup>2) = 7.5
        \<and> sqrt ((x a2 - 30)\<^sup>2 + (y a2 - 0)\<^sup>2) = 2.5
        \<and> sqrt ((x a2 - x a1)\<^sup>2 + (y a2 - y a1)\<^sup>2) = 40)"
proof -
  have h: "(0.001::real) \<le> sqrt ((30 - 0)\<^sup>2 + (0 - 0)\<^sup>2)"
    "sqrt ((30 - 0)\<^sup>2 + (0 - 0)\<^sup>2) < (20::real) + 20"
    by simp_all
  show ?thesis
    using h resolve_separates_overlap
      [of 1 3 "\<lparr>x = 30, y = 0, vx = 0, vy = 0\<rparr>" "\<lparr>x = 0, y = 0, vx = 0, vy = 0\<rparr>" 20 20 "0.5"]
    by auto
qed

text \<open>
  C6 as stated fails for centres that do not coincide but are closer than 0.001: the
  guard \<open>dist < 0.001\<close> replaces the contact normal by the x-axis and the distance by
  1. Two circles of radius 20 whose centres are 0.0005 apart on the y-axis are moved
  along the x-axis by 19.5 each, and still overlap.
\<close>

theorem resolve_near_coincident_counterexample:
  "resolve_circle_collision \<lparr>x = 0, y = 0, vx = 0, vy = 0\<rparr> 20
     \<lparr>x = 0, y = 1 / 2000, vx = 0, vy = 0\<rparr> 20 1 1 0.5
   = Inr (\<lparr>x = - 19.5, y = 0, vx = 0, vy = 0\<rparr>, \<lparr>x = 19.5, y = 1 / 2000, vx = 0, vy = 0\<rparr>, True)
   \<and> sqrt ((19.5 - (- 19.5))\<^sup>2 + (1 / 2000 - 0)\<^sup>2) < (20::real) + 20"
proof -
  have d: "sqrt ((0 - 0)\<^sup>2 + (1 / 2000 - 0)\<^sup>2) = (1 / 2000 :: real)"
    by (simp add: real_sqrt_divide)
  have still: "sqrt ((19.5 - (- 19.5))\<^sup>2 + (1 / 2000 - 0)\<^sup>2) < (20::real) + 20"
    by (rule real_less_lsqrt) (simp_all add: power2_eq_square)
  show ?thesis
    using d still by (simp add: resolve_circle_collision_def Let_def)
qed

section \<open>Kick processing\<close>

text \<open>A kick writes the ball's velocity only, and what it does to the player depends on
  the ball through the ball's position only.\<close>

lemma kick_player_ball_position:
  "x (snd (kick_player cfg acts p b)) = x b \<and> y (snd (kick_player cfg acts p b)) = y b"
  by (simp add: kick_player_def Let_def)

lemma kick_player_fst_cong:
  "x b = x b' \<Longrightarrow> y b = y b' \<Longrightarrow> fst (kick_player cfg acts p b) = fst (kick_player cfg acts p b')"
  by (simp add: kick_player_def Let_def)

lemma process_kicks_ball_position:
  "x (snd (process_kicks cfg acts ps b)) = x b \<and> y (snd (process_kicks cfg acts ps b)) = y b"
proof (induction ps arbitrary: b)
  case Nil
  then show ?case by simp
next
  case (Cons p ps)
  show ?case
    using Cons.IH [of "snd (kick_player cfg acts p b)"] kick_player_ball_position [of cfg acts p b]
    by (simp add: split_beta Let_def)
qed

lemma process_kicks_length: "length (fst (process_kicks cfg acts ps b)) = length ps"
  by (induction ps arbitrary: b) (simp_all add: split_beta Let_def)

lemma process_kicks_nth:
  "i < length ps \<Longrightarrow>
   fst (process_kicks cfg acts ps b) ! i = fst (kick_player cfg acts (ps ! i) b)"
proof (induction ps arbitrary: b i)
  case Nil
  then show ?case by simp
next
  case (Cons p ps)
  show ?case
  proof (cases i)
    case 0
    then show ?thesis by (simp add: split_beta Let_def)
  next
    case (Suc k)
    then have k: "k < length ps" using Cons.prems by simp
    have "fst (process_kicks cfg acts ps (snd (kick_player cfg acts p b))) ! k
          = fst (kick_player cfg acts (ps ! k) (snd (kick_player cfg acts p b)))"
      using Cons.IH [OF k] .
    also have "\<dots> = fst (kick_player cfg acts (ps ! k) b)"
      using kick_player_ball_position [of cfg acts p b] by (intro kick_player_fst_cong) simp_all
    finally show ?thesis using Suc by (simp add: split_beta Let_def)
  qed
qed

lemma kick_player_cooling:
  "1 < kick_cooldown p \<Longrightarrow>
   kick_player cfg acts p b = (p\<lparr>kick_cooldown := kick_cooldown p - 1\<rparr>, b)"
  by (simp add: kick_player_def Let_def)

lemma process_kicks_skip:
  "i < length ps \<Longrightarrow> 1 < kick_cooldown (ps ! i) \<Longrightarrow>
   snd (process_kicks cfg acts ps b) = snd (process_kicks cfg acts (take i ps @ drop (Suc i) ps) b)"
proof (induction ps arbitrary: b i)
  case Nil
  then show ?case by simp
next
  case (Cons p ps)
  show ?case
  proof (cases i)
    case 0
    then show ?thesis using Cons.prems by (simp add: split_beta Let_def kick_player_cooling)
  next
    case (Suc k)
    then show ?thesis using Cons.prems Cons.IH [of k] by (simp add: split_beta Let_def)
  qed
qed

text \<open>
  C3, amended. For every player whose kick cooldown is greater than 1 at the start of
  kick processing, whatever its action requests, the cooldown after kick processing is
  the cooldown before minus 1, the player's turn in the loop leaves any ball unchanged,
  and the ball after the loop is the ball after the loop without that player.
\<close>

theorem kick_request_during_cooldown:
  assumes "i < length ps" and "1 < kick_cooldown (ps ! i)"
  shows "kick_cooldown (fst (process_kicks cfg acts ps b) ! i) = kick_cooldown (ps ! i) - 1
    \<and> (\<forall>b'. snd (kick_player cfg acts (ps ! i) b') = b')
    \<and> snd (process_kicks cfg acts ps b)
        = snd (process_kicks cfg acts (take i ps @ drop (Suc i) ps) b)"
  using assms
  by (simp add: process_kicks_nth kick_player_cooling process_kicks_skip [of i ps cfg acts b])

text \<open>Example data: a player of team 0 at (100, 300) with a given cooldown, a ball at
  rest at a given x on the same line, and an action map in which that player requests a
  kick.\<close>

definition kicker :: "int \<Rightarrow> Player" where
  "kicker c = \<lparr>x = 100, y = 300, vx = 0, vy = 0, radius = 20, mass = 1,
               team_id = 0, player_id = 0, kick_cooldown = c\<rparr>"

definition ball_at :: "real \<Rightarrow> Ball" where
  "ball_at bx = \<lparr>x = bx, y = 300, vx = 0, vy = 0, radius = 10, mass = 0.5\<rparr>"

definition kick_request :: actions where
  "kick_request = [(0, 0) \<mapsto> \<lparr>ax = 0, ay = 0, kick = True\<rparr>]"

theorem kick_request_during_cooldown_witness:
  "(0::nat) < length [kicker 5] \<and> 1 < kick_cooldown ([kicker 5] ! 0)
   \<and> kick_cooldown (fst (process_kicks example_config kick_request [kicker 5] (ball_at 130)) ! 0) = 4
   \<and> snd (kick_player example_config kick_request ([kicker 5] ! 0) (ball_at 130)) = ball_at 130
   \<and> snd (process_kicks example_config kick_request [kicker 5] (ball_at 130)) = ball_at 130"
  using kick_request_during_cooldown [of 0 "[kicker 5]" example_config kick_request "ball_at 130"]
  by (simp add: kicker_def)

text \<open>
  C3 as stated fails at cooldown 1: the decrement comes before the test
  \<open>kick_cooldown == 0\<close>, so the kick is legal on that tick. A player with cooldown 1 and
  the ball 30 away kicks (the ball gains the kick power 10 in x) and its cooldown is set
  to the configured 10 ticks.
\<close>

theorem kick_at_cooldown_one_counterexample:
  "kick_cooldown (kicker 1) > 0
   \<and> kick_request (team_id (kicker 1), player_id (kicker 1)) = Some \<lparr>ax = 0, ay = 0, kick = True\<rparr>
   \<and> process_kicks example_config kick_request [kicker 1] (ball_at 130)
      = ([kicker 10], (ball_at 130)\<lparr>vx := 10\<rparr>)"
  by (simp add: kicker_def ball_at_def kick_request_def example_config_def kick_player_def Let_def)

lemma kick_player_legal_in_range:
  assumes "acts (team_id p, player_id p) = Some a" and "kick a"
    and "kick_cooldown p = 0 \<or> kick_cooldown p = 1"
    and "sqrt ((x b - x p)\<^sup>2 + (y b - y p)\<^sup>2) \<le> kick_range cfg"
  shows "kick_cooldown (fst (kick_player cfg acts p b)) = kick_cooldown_ticks cfg"
  using assms by (auto simp: kick_player_def Let_def)

lemma kick_player_legal_out_of_range:
  assumes "acts (team_id p, player_id p) = Some a" and "kick a"
    and "kick_cooldown p = 0 \<or> kick_cooldown p = 1"
    and "kick_range cfg < sqrt ((x b - x p)\<^sup>2 + (y b - y p)\<^sup>2)"
  shows "kick_player cfg acts p b = (p\<lparr>kick_cooldown := 0\<rparr>, b)"
  using assms by (auto simp: kick_player_def Let_def)

lemma kick_player_coincident_stationary:
  assumes "acts (team_id p, player_id p) = Some a" and "kick a"
    and "kick_cooldown p = 0 \<or> kick_cooldown p = 1"
    and "x b = x p" and "y b = y p" and "vx p = 0" and "vy p = 0" and "0 \<le> kick_range cfg"
  shows "kick_player cfg acts p b = (p\<lparr>kick_cooldown := kick_cooldown_ticks cfg\<rparr>, b)"
proof -
  have z: "x b - x p = 0" "y b - y p = 0" using assms(4,5) by simp_all
  show ?thesis
    using assms(3)
  proof
    assume "kick_cooldown p = 0"
    then show ?thesis
      by (simp add: kick_player_def Let_def z assms(1,2,6,7,8))
  next
    assume "kick_cooldown p = 1"
    then show ?thesis
      by (simp add: kick_player_def Let_def z assms(1,2,6,7,8))
  qed
qed

text \<open>
  C5, amended. For every player whose action requests a kick and whose cooldown is zero
  after the decrement (it was 0 or 1), kick processing sets the cooldown to the
  configured number of ticks when the ball is within the kick range, whether or not an
  impulse is applied: in particular when the player is coincident with the ball and
  stationary, where the ball is left unchanged. When the ball is outside the kick range
  the cooldown is 0 after kick processing and the ball is left unchanged.
\<close>

theorem legal_kick_resets_cooldown_in_range:
  assumes "i < length ps"
    and "acts (team_id (ps ! i), player_id (ps ! i)) = Some a" and "kick a"
    and "kick_cooldown (ps ! i) = 0 \<or> kick_cooldown (ps ! i) = 1"
  shows "(sqrt ((x b - x (ps ! i))\<^sup>2 + (y b - y (ps ! i))\<^sup>2) \<le> kick_range cfg \<longrightarrow>
            kick_cooldown (fst (process_kicks cfg acts ps b) ! i) = kick_cooldown_ticks cfg)
    \<and> (x b = x (ps ! i) \<and> y b = y (ps ! i) \<and> vx (ps ! i) = 0 \<and> vy (ps ! i) = 0
          \<and> 0 \<le> kick_range cfg \<longrightarrow>
            kick_cooldown (fst (process_kicks cfg acts ps b) ! i) = kick_cooldown_ticks cfg
          \<and> snd (kick_player cfg acts (ps ! i) b) = b)
    \<and> (kick_range cfg < sqrt ((x b - x (ps ! i))\<^sup>2 + (y b - y (ps ! i))\<^sup>2) \<longrightarrow>
            kick_cooldown (fst (process_kicks cfg acts ps b) ! i) = 0
          \<and> snd (kick_player cfg acts (ps ! i) b) = b)"
proof (intro conjI impI)
  assume "sqrt ((x b - x (ps ! i))\<^sup>2 + (y b - y (ps ! i))\<^sup>2) \<le> kick_range cfg"
  then show "kick_cooldown (fst (process_kicks cfg acts ps b) ! i) = kick_cooldown_ticks cfg"
    using assms by (simp add: process_kicks_nth kick_player_legal_in_range)
next
  assume c: "x b = x (ps ! i) \<and> y b = y (ps ! i) \<and> vx (ps ! i) = 0 \<and> vy (ps ! i) = 0
             \<and> 0 \<le> kick_range cfg"
  then have k: "kick_player cfg acts (ps ! i) b
                = ((ps ! i)\<lparr>kick_cooldown := kick_cooldown_ticks cfg\<rparr>, b)"
    using assms(2-4) by (intro kick_player_coincident_stationary) simp_all
  show "kick_cooldown (fst (process_kicks cfg acts ps b) ! i) = kick_cooldown_ticks cfg"
    using assms(1) k by (simp add: process_kicks_nth)
  show "snd (kick_player cfg acts (ps ! i) b) = b" using k by simp
next
  assume f: "kick_range cfg < sqrt ((x b - x (ps ! i))\<^sup>2 + (y b - y (ps ! i))\<^sup>2)"
  have k: "kick_player cfg acts (ps ! i) b = ((ps ! i)\<lparr>kick_cooldown := 0\<rparr>, b)"
    using assms(2-4) f by (rule kick_player_legal_out_of_range)
  show "kick_cooldown (fst (process_kicks cfg acts ps b) ! i) = 0"
    using assms(1) k by (simp add: process_kicks_nth)
  show "snd (kick_player cfg acts (ps ! i) b) = b" using k by simp
qed

theorem legal_kick_resets_cooldown_in_range_witness:
  "(0::nat) < length [kicker 0]
   \<and> kick_request (team_id ([kicker 0] ! 0), player_id ([kicker 0] ! 0))
       = Some \<lparr>ax = 0, ay = 0, kick = True\<rparr>
   \<and> kick \<lparr>ax = 0, ay = 0, kick = True\<rparr>
   \<and> kick_cooldown ([kicker 0] ! 0) = 0
   \<and> kick_cooldown (fst (process_kicks example_config kick_request [kicker 0] (ball_at 130)) ! 0) = 10
   \<and> kick_cooldown (fst (process_kicks example_config kick_request [kicker 0] (ball_at 100)) ! 0) = 10
   \<and> snd (kick_player example_config kick_request ([kicker 0] ! 0) (ball_at 100)) = ball_at 100
   \<and> kick_cooldown (fst (process_kicks example_config kick_request [kicker 0] (ball_at 500)) ! 0) = 0"
proof -
  have l: "(0::nat) < length [kicker 0]" by simp
  have a: "kick_request (team_id ([kicker 0] ! 0), player_id ([kicker 0] ! 0))
           = Some \<lparr>ax = 0, ay = 0, kick = True\<rparr>"
    by (simp add: kicker_def kick_request_def)
  have k: "kick \<lparr>ax = 0, ay = 0, kick = True\<rparr>" by simp
  have c0: "kick_cooldown ([kicker 0] ! 0) = 0" by (simp add: kicker_def)
  then have c: "kick_cooldown ([kicker 0] ! 0) = 0 \<or> kick_cooldown ([kicker 0] ! 0) = 1" ..
  have ticks: "kick_cooldown_ticks example_config = 10" by (simp add: example_config_def)
  note t = legal_kick_resets_cooldown_in_range
    [where i = 0 and ps = "[kicker 0]" and acts = kick_request
       and a = "\<lparr>ax = 0, ay = 0, kick = True\<rparr>" and cfg = example_config, OF l a k c]
  have "sqrt ((x (ball_at 130) - x ([kicker 0] ! 0))\<^sup>2 + (y (ball_at 130) - y ([kicker 0] ! 0))\<^sup>2)
        \<le> kick_range example_config"
    by (simp add: kicker_def ball_at_def example_config_def)
  with t [of "ball_at 130"]
  have near: "kick_cooldown (fst (process_kicks example_config kick_request [kicker 0] (ball_at 130)) ! 0) = 10"
    unfolding ticks by blast
  have "x (ball_at 100) = x ([kicker 0] ! 0) \<and> y (ball_at 100) = y ([kicker 0] ! 0)
        \<and> vx ([kicker 0] ! 0) = 0 \<and> vy ([kicker 0] ! 0) = 0 \<and> 0 \<le> kick_range example_config"
    by (simp add: kicker_def ball_at_def example_config_def)
  with t [of "ball_at 100"]
  have same: "kick_cooldown (fst (process_kicks example_config kick_request [kicker 0] (ball_at 100)) ! 0) = 10
      \<and> snd (kick_player example_config kick_request ([kicker 0] ! 0) (ball_at 100)) = ball_at 100"
    unfolding ticks by blast
  have "kick_range example_config
        < sqrt ((x (ball_at 500) - x ([kicker 0] ! 0))\<^sup>2 + (y (ball_at 500) - y ([kicker 0] ! 0))\<^sup>2)"
    by (simp add: kicker_def ball_at_def example_config_def)
  with t [of "ball_at 500"]
  have far: "kick_cooldown (fst (process_kicks example_config kick_request [kicker 0] (ball_at 500)) ! 0) = 0"
    by blast
  from l a k c0 near same far show ?thesis by blast
qed

text \<open>
  C5 as stated fails when the ball is outside the kick range: the cooldown is set inside
  the branch \<open>dist <= kick_range\<close>. A player with cooldown 0 that requests a kick with
  the ball 400 away (range 40) keeps cooldown 0, not the configured 10.
\<close>

theorem legal_kick_out_of_range_counterexample:
  "kick_request (team_id (kicker 0), player_id (kicker 0)) = Some \<lparr>ax = 0, ay = 0, kick = True\<rparr>
   \<and> kick_cooldown (kicker 0) = 0
   \<and> kick_cooldown_ticks example_config = 10
   \<and> process_kicks example_config kick_request [kicker 0] (ball_at 500) = ([kicker 0], ball_at 500)"
proof -
  have a: "kick_request (team_id (kicker 0), player_id (kicker 0))
           = Some \<lparr>ax = 0, ay = 0, kick = True\<rparr>"
    by (simp add: kicker_def kick_request_def)
  have c0: "kick_cooldown (kicker 0) = 0" by (simp add: kicker_def)
  then have c: "kick_cooldown (kicker 0) = 0 \<or> kick_cooldown (kicker 0) = 1" ..
  have far: "kick_range example_config
             < sqrt ((x (ball_at 500) - x (kicker 0))\<^sup>2 + (y (ball_at 500) - y (kicker 0))\<^sup>2)"
    by (simp add: kicker_def ball_at_def example_config_def)
  have k0: "kick_player example_config kick_request (kicker 0) (ball_at 500)
        = ((kicker 0)\<lparr>kick_cooldown := 0\<rparr>, ball_at 500)"
    by (rule kick_player_legal_out_of_range
          [where acts = kick_request and p = "kicker 0"
             and a = "\<lparr>ax = 0, ay = 0, kick = True\<rparr>", OF a _ c far]) simp
  have same: "(kicker 0)\<lparr>kick_cooldown := 0\<rparr> = kicker 0"
    by (simp add: kicker_def)
  have k: "kick_player example_config kick_request (kicker 0) (ball_at 500)
        = (kicker 0, ball_at 500)"
    by (simp only: k0 same)
  have p: "process_kicks example_config kick_request [kicker 0] (ball_at 500)
        = ([kicker 0], ball_at 500)"
    by (simp add: k)
  have t: "kick_cooldown_ticks example_config = 10" by (simp add: example_config_def)
  from a c0 t p show ?thesis by blast
qed

section \<open>Reachable games and the score\<close>

text \<open>The draws that \<open>random.uniform\<close> can return: the angle in \<open>[0, 2\<pi>]\<close>, the speed in
  \<open>[2, 5]\<close>, each jitter in \<open>[-20, 20]\<close>.\<close>

definition valid_draws :: "Draws \<Rightarrow> bool" where
  "valid_draws d =
     (0 \<le> angle d \<and> angle d \<le> 2 * pi \<and> 2 \<le> speed d \<and> speed d \<le> 5
      \<and> (\<forall>k. \<bar>fst (jitter d k)\<bar> \<le> 20 \<and> \<bar>snd (jitter d k)\<bar> \<le> 20))"

text \<open>The games that the constructor and calls of \<open>step\<close> that return can produce, for
  any behaviour of the decision sources.\<close>

inductive reachable :: "GameConfig \<Rightarrow> Game \<Rightarrow> bool" for cfg :: GameConfig where
  initial: "valid_draws d \<Longrightarrow> reachable cfg (new_game cfg d)"
| stepped: "reachable cfg g \<Longrightarrow> valid_draws d \<Longrightarrow>
         step cfg all_agents finished d g = Some (Inr (g', r)) \<Longrightarrow> reachable cfg g'"

definition score_inv :: "GameConfig \<Rightarrow> Game \<Rightarrow> bool" where
  "score_inv cfg g =
     (goals g = setup_goals cfg \<and> length (score g) = 2
      \<and> (pending_goal_scorer g = None \<or> pending_goal_scorer g = Some 0
           \<or> pending_goal_scorer g = Some 1)
      \<and> (0 < goal_celebration_remaining g \<longrightarrow> pending_goal_scorer g \<noteq> None))"

lemma check_goal_setup_cases:
  "check_goal cfg b (setup_goals cfg) = None \<or> check_goal cfg b (setup_goals cfg) = Some 0
   \<or> check_goal cfg b (setup_goals cfg) = Some 1"
  by (simp add: check_goal_setup)

lemma finish_tick_fields:
  "score (fst (finish_tick cfg g r)) = score g"
  "goals (fst (finish_tick cfg g r)) = goals g"
  "pending_goal_scorer (fst (finish_tick cfg g r)) = pending_goal_scorer g"
  "goal_celebration_remaining (fst (finish_tick cfg g r)) = goal_celebration_remaining g"
  "snd (finish_tick cfg g r) = r"
  by (simp_all add: finish_tick_def Let_def)

lemma reset_positions_fields:
  assumes "reset_positions cfg d g = Inr g'"
  shows "score g' = score g" and "goals g' = goals g"
    and "pending_goal_scorer g' = pending_goal_scorer g"
    and "goal_celebration_remaining g' = goal_celebration_remaining g"
  using assms by (auto simp: reset_positions_def Let_def split: sum.splits)

lemma step_play_score:
  assumes "step_play cfg acts g = Inr (g', r)"
  shows "score g' = score g" and "goals g' = goals g"
    and "(pending_goal_scorer g' = pending_goal_scorer g
          \<and> goal_celebration_remaining g' = goal_celebration_remaining g)
         \<or> (\<exists>t. check_goal cfg (ball g') (goals g) = Some t \<and> pending_goal_scorer g' = Some t
                \<and> goal_celebration_remaining g' = goal_celebration_ticks cfg)"
  using assms
  by (auto simp: step_play_def Let_def finish_tick_def split: sum.splits prod.splits option.splits if_splits)

lemma subscript_team:
  "t = 0 \<or> t = 1 \<Longrightarrow> subscript 2 t = Inr (nat t)"
  by (auto simp: subscript_def)

lemma end_celebration_score:
  assumes "end_celebration cfg d g t = Inr g'" and "t = 0 \<or> t = 1" and "length (score g) = 2"
  shows "score g' = (score g)[nat t := score g ! nat t + 1]" and "goals g' = goals g"
    and "pending_goal_scorer g' = None"
    and "goal_celebration_remaining g' = goal_celebration_remaining g"
proof -
  have inc: "py_incr (score g) t = Inr ((score g)[nat t := score g ! nat t + 1])"
    using assms(2,3) by (simp add: py_incr_def subscript_team)
  obtain g1 where r: "reset_positions cfg d (g\<lparr>score := (score g)[nat t := score g ! nat t + 1]\<rparr>) = Inr g1"
    using assms(1) by (auto simp: end_celebration_def inc split: sum.splits)
  have g': "g' = g1\<lparr>pending_goal_scorer := None\<rparr>
            \<or> g' = g1\<lparr>pending_goal_scorer := None, status := ENDED\<rparr>"
    using assms(1) by (auto simp: end_celebration_def inc r Let_def split: sum.splits if_splits)
  note f = reset_positions_fields [OF r]
  show "score g' = (score g)[nat t := score g ! nat t + 1]" using g' f(1) by auto
  show "goals g' = goals g" using g' f(2) by auto
  show "pending_goal_scorer g' = None" using g' by auto
  show "goal_celebration_remaining g' = goal_celebration_remaining g" using g' f(4) by auto
qed

lemma step_celebration_end:
  assumes "step_celebration cfg d g = Inr (g', r)"
    and "goal_celebration_remaining g = 1" and "pending_goal_scorer g = Some t"
    and "t = 0 \<or> t = 1" and "length (score g) = 2"
  shows "score g' = (score g)[nat t := score g ! nat t + 1]" and "r = Some t"
    and "goals g' = goals g" and "pending_goal_scorer g' = None"
    and "goal_celebration_remaining g' = 0"
proof -
  obtain ps b where u: "update_positions cfg (players g) (ball g) = Inr (ps, b)"
    using assms(1) by (auto simp: step_celebration_def split: sum.splits)
  obtain ps' b' where h: "handle_all_collisions cfg ps b (goals g) = Inr (ps', b')"
    using assms(1) by (auto simp: step_celebration_def u split: sum.splits)
  define g1 where "g1 = g\<lparr>players := ps', ball := b', goal_celebration_remaining := 0\<rparr>"
  obtain g2 where e: "end_celebration cfg d g1 t = Inr g2"
    and res: "(g', r) = finish_tick cfg g2 (Some t)"
    using assms(1,2,3)
    by (auto simp: step_celebration_def u h g1_def Let_def split: sum.splits)
  have l: "length (score g1) = 2" using assms(5) by (simp add: g1_def)
  note f = end_celebration_score [OF e assms(4) l]
  have g': "g' = fst (finish_tick cfg g2 (Some t))" and r: "r = snd (finish_tick cfg g2 (Some t))"
    using res by (simp_all flip: res)
  show "score g' = (score g)[nat t := score g ! nat t + 1]"
    using f(1) by (simp add: g' finish_tick_fields g1_def)
  show "r = Some t" by (simp add: r finish_tick_fields)
  show "goals g' = goals g" using f(2) by (simp add: g' finish_tick_fields g1_def)
  show "pending_goal_scorer g' = None" using f(3) by (simp add: g' finish_tick_fields)
  show "goal_celebration_remaining g' = 0" using f(4) by (simp add: g' finish_tick_fields g1_def)
qed

lemma step_celebration_continue:
  assumes "step_celebration cfg d g = Inr (g', r)"
    and "goal_celebration_remaining g \<noteq> 1 \<or> pending_goal_scorer g = None"
  shows "score g' = score g" and "r = None" and "goals g' = goals g"
    and "pending_goal_scorer g' = pending_goal_scorer g"
    and "goal_celebration_remaining g' = goal_celebration_remaining g - 1"
proof -
  obtain ps b where u: "update_positions cfg (players g) (ball g) = Inr (ps, b)"
    using assms(1) by (auto simp: step_celebration_def split: sum.splits)
  obtain ps' b' where h: "handle_all_collisions cfg ps b (goals g) = Inr (ps', b')"
    using assms(1) by (auto simp: step_celebration_def u split: sum.splits)
  define g1 where "g1 = g\<lparr>players := ps', ball := b',
                           goal_celebration_remaining := goal_celebration_remaining g - 1\<rparr>"
  have res: "(g', r) = finish_tick cfg g1 None"
    using assms(1,2) by (auto simp: step_celebration_def u h g1_def Let_def split: sum.splits)
  have g': "g' = fst (finish_tick cfg g1 None)" and r: "r = snd (finish_tick cfg g1 None)"
    by (simp_all flip: res)
  show "score g' = score g" by (simp add: g' finish_tick_fields g1_def)
  show "r = None" by (simp add: r finish_tick_fields)
  show "goals g' = goals g" by (simp add: g' finish_tick_fields g1_def)
  show "pending_goal_scorer g' = pending_goal_scorer g" by (simp add: g' finish_tick_fields g1_def)
  show "goal_celebration_remaining g' = goal_celebration_remaining g - 1"
    by (simp add: g' finish_tick_fields g1_def)
qed

lemma step_cases:
  assumes "step cfg all_agents finished d g = Some (Inr (g', r))"
  shows "(status g \<noteq> RUNNING \<and> g' = g \<and> r = None)
       \<or> (status g = RUNNING \<and> 0 < goal_celebration_remaining g
            \<and> step_celebration cfg d g = Inr (g', r))
       \<or> (status g = RUNNING \<and> goal_celebration_remaining g \<le> 0
            \<and> (\<exists>acts. step_play cfg acts g = Inr (g', r)))"
  using assms by (auto simp: step_def split: if_splits option.splits sum.splits)

lemma score_inv_new_game: "score_inv cfg (new_game cfg d)"
  by (simp add: score_inv_def new_game_def)

lemma score_inv_step:
  assumes "score_inv cfg g" and "step cfg all_agents finished d g = Some (Inr (g', r))"
  shows "score_inv cfg g'"
proof -
  from step_cases [OF assms(2)] consider
      (ended) "g' = g"
    | (celebration) "0 < goal_celebration_remaining g" "step_celebration cfg d g = Inr (g', r)"
    | (play) acts where "goal_celebration_remaining g \<le> 0" "step_play cfg acts g = Inr (g', r)"
    by blast
  then show ?thesis
  proof cases
    case ended
    then show ?thesis using assms(1) by simp
  next
    case celebration
    from assms(1) celebration(1) obtain t where t: "pending_goal_scorer g = Some t" "t = 0 \<or> t = 1"
      by (auto simp: score_inv_def)
    have len: "length (score g) = 2" and gs: "goals g = setup_goals cfg"
      using assms(1) by (simp_all add: score_inv_def)
    show ?thesis
    proof (cases "goal_celebration_remaining g = 1")
      case True
      note f = step_celebration_end [OF celebration(2) True t len]
      show ?thesis using f len gs by (simp add: score_inv_def)
    next
      case False
      then have "goal_celebration_remaining g \<noteq> 1 \<or> pending_goal_scorer g = None" by simp
      note f = step_celebration_continue [OF celebration(2) this]
      show ?thesis using f len gs t by (auto simp: score_inv_def)
    qed
  next
    case play
    have len: "length (score g) = 2" and gs: "goals g = setup_goals cfg"
      using assms(1) by (simp_all add: score_inv_def)
    note f = step_play_score [OF play(2)]
    from f(3) show ?thesis
    proof
      assume "pending_goal_scorer g' = pending_goal_scorer g
              \<and> goal_celebration_remaining g' = goal_celebration_remaining g"
      then show ?thesis using assms(1) play(1) f(1,2) by (simp add: score_inv_def)
    next
      assume "\<exists>t. check_goal cfg (ball g') (goals g) = Some t \<and> pending_goal_scorer g' = Some t
                \<and> goal_celebration_remaining g' = goal_celebration_ticks cfg"
      then obtain t where t: "check_goal cfg (ball g') (setup_goals cfg) = Some t"
        "pending_goal_scorer g' = Some t"
        using gs by auto
      from t(1) check_goal_setup_cases [of cfg "ball g'"] have "t = 0 \<or> t = 1" by auto
      then show ?thesis using t(2) f(1,2) len gs by (auto simp: score_inv_def)
    qed
  qed
qed

lemma reachable_score_inv: "reachable cfg g \<Longrightarrow> score_inv cfg g"
  by (induction rule: reachable.induct) (auto intro: score_inv_new_game score_inv_step)

text \<open>
  C10. For every reachable game, a call of \<open>step\<close> that returns leaves the length of
  the score and never decreases an entry of it. When the game is running and the
  celebration countdown is 1 (it reaches zero on this tick), there is a pending scorer
  \<open>t\<close>, one of the teams 0 and 1, the call returns \<open>t\<close>, and the score after the call is
  the score before with the entry of \<open>t\<close> increased by exactly 1; on every other call the
  score is unchanged.
\<close>

theorem step_score_monotone:
  assumes "reachable cfg g" and "step cfg all_agents finished d g = Some (Inr (g', r))"
  shows "(status g = RUNNING \<and> goal_celebration_remaining g = 1 \<longrightarrow>
            (\<exists>t. pending_goal_scorer g = Some t \<and> (t = 0 \<or> t = 1) \<and> r = Some t
                 \<and> score g' = (score g)[nat t := score g ! nat t + 1]))
       \<and> (\<not> (status g = RUNNING \<and> goal_celebration_remaining g = 1) \<longrightarrow> score g' = score g)
       \<and> length (score g') = length (score g)
       \<and> (\<forall>k < length (score g). score g ! k \<le> score g' ! k)"
proof -
  have inv: "score_inv cfg g" using assms(1) by (rule reachable_score_inv)
  have len: "length (score g) = 2" using inv by (simp add: score_inv_def)
  show ?thesis
  proof (cases "status g = RUNNING \<and> goal_celebration_remaining g = 1")
    case True
    then have c: "step_celebration cfg d g = Inr (g', r)"
      using step_cases [OF assms(2)] by auto
    from inv True obtain t where t: "pending_goal_scorer g = Some t" "t = 0 \<or> t = 1"
      by (auto simp: score_inv_def)
    have one: "goal_celebration_remaining g = 1" using True by simp
    note f = step_celebration_end [OF c one t len]
    have mono: "\<forall>k < length (score g). score g ! k \<le> score g' ! k"
      unfolding f(1) using len t(2) by (auto simp: nth_list_update)
    show ?thesis using True t f(1,2) mono by auto
  next
    case False
    from step_cases [OF assms(2)] consider
        (ended) "g' = g"
      | (celebration) "0 < goal_celebration_remaining g" "step_celebration cfg d g = Inr (g', r)"
          "status g = RUNNING"
      | (play) acts where "step_play cfg acts g = Inr (g', r)"
      by blast
    then have same: "score g' = score g"
    proof cases
      case ended
      then show ?thesis by simp
    next
      case celebration
      then have "goal_celebration_remaining g \<noteq> 1 \<or> pending_goal_scorer g = None"
        using False by simp
      from step_celebration_continue(1) [OF celebration(2) this] show ?thesis .
    next
      case play
      from step_play_score(1) [OF play] show ?thesis .
    qed
    show ?thesis using False same by auto
  qed
qed

subsection \<open>A match that scores\<close>

text \<open>
  A configuration whose kickoff point lies inside the left goal mouth, with a celebration
  of one tick, two decision sources that return the neutral action in time, and draws
  that send the ball along the x-axis: the first tick detects the goal for team 1, the
  second ends the celebration and adds the point.
\<close>

definition goal_config :: GameConfig where
  "goal_config =
     \<lparr>field_width = 1000, field_height = 600, corner_radius = 60,
      goal_width = 10, goal_height = 120,
      player_radius = 20, player_mass = 1, ball_radius = 10, ball_mass = 0.5,
      player_max_acceleration = 0.5, player_max_speed = 5,
      ball_friction = 0.5, ball_max_speed = 15,
      kick_range = 40, kick_power = 10, kick_cooldown_ticks = 10,
      win_score = 5, max_ticks = 3000, goal_celebration_ticks = 1,
      initial_player_positions = (\<lambda>t. if t = 0 then [(250, 300)] else [(750, 300)]),
      initial_ball_position = (-30, 300)\<rparr>"

definition idle_agents :: "Agent list" where
  "idle_agents =
     [\<lparr>team_id_a = 0, player_id_a = 0, get_action = (\<lambda>_. Returned default_action)\<rparr>,
      \<lparr>team_id_a = 1, player_id_a = 0, get_action = (\<lambda>_. Returned default_action)\<rparr>]"

definition draws0 :: Draws where
  "draws0 = \<lparr>angle = 0, speed = 2, jitter = (\<lambda>_. (0, 0))\<rparr>"

definition idle_actions :: actions where
  "idle_actions = [(0, 0) \<mapsto> default_action, (1, 0) \<mapsto> default_action]"

definition player_at :: "int \<Rightarrow> real \<Rightarrow> Player" where
  "player_at t px = \<lparr>x = px, y = 300, vx = 0, vy = 0, radius = 20, mass = 1,
                     team_id = t, player_id = 0, kick_cooldown = 0\<rparr>"

lemma e_new: "new_game goal_config draws0 =
   \<lparr>players = [player_at 0 250, player_at 1 750],
    ball = \<lparr>x = -30, y = 300, vx = 2, vy = 0, radius = 10, mass = 0.5\<rparr>,
    goals = setup_goals goal_config, score = [0, 0], tick = 0, status = RUNNING,
    goal_celebration_remaining = 0, pending_goal_scorer = None\<rparr>"
  by (simp add: new_game_def setup_players_def setup_team_def setup_ball_def goal_config_def
      draws0_def player_at_def enumerate_eq_zip)

lemma e_acts: "get_agent_actions idle_agents st [0, 1] = Some (Inr idle_actions)"
  by (simp add: get_agent_actions_def idle_agents_def agent_key_def idle_actions_def)

lemma e_acc: "apply_acceleration goal_config (player_at t px) 0 0 = Inr (player_at t px)"
  by (simp add: apply_acceleration_def clamp_velocity_def goal_config_def player_at_def)

lemma e_apply: "apply_actions goal_config idle_actions [player_at 0 250, player_at 1 750]
   = Inr [player_at 0 250, player_at 1 750]"
proof -
  have k: "idle_actions (team_id (player_at 0 250), player_id (player_at 0 250)) = Some default_action"
    "idle_actions (team_id (player_at 1 750), player_id (player_at 1 750)) = Some default_action"
    by (simp_all add: idle_actions_def player_at_def)
  have d: "ax default_action = 0" "ay default_action = 0" by (simp_all add: default_action_def)
  show ?thesis by (simp add: k d e_acc)
qed

definition ball_in_goal :: "real \<Rightarrow> real \<Rightarrow> Ball" where
  "ball_in_goal bx bv = \<lparr>x = bx, y = 300, vx = bv, vy = 0, radius = 10, mass = 0.5\<rparr>"

lemma e_kick: "kick_player goal_config idle_actions (player_at t px) b = (player_at t px, b)"
  if "t = 0 \<or> t = 1"
  using that by (auto simp: kick_player_def idle_actions_def player_at_def default_action_def)

lemma e_kicks: "process_kicks goal_config idle_actions [player_at 0 250, player_at 1 750] b
   = ([player_at 0 250, player_at 1 750], b)"
  by (simp add: e_kick)

lemma e_move: "move (player_at t px) = player_at t px"
  by (simp add: move_def player_at_def)

lemma e_move_ball: "move (ball_in_goal bx bv) = ball_in_goal (bx + bv) bv"
  by (simp add: move_def ball_in_goal_def)

lemma e_update: "0 \<le> bv \<Longrightarrow> bv \<le> 30 \<Longrightarrow>
  update_positions goal_config [player_at 0 250, player_at 1 750] (ball_in_goal bx bv)
   = Inr ([player_at 0 250, player_at 1 750], ball_in_goal (bx + bv) (bv / 2))"
  apply (simp add: update_positions_def e_move e_move_ball Let_def)
  apply (simp add: ball_in_goal_def clamp_velocity_def goal_config_def Let_def e_move)
  done

lemma e_boundary_player: "px = 250 \<or> px = 750 \<Longrightarrow>
  enforce_boundary goal_config (player_at t px) (radius (player_at t px)) False = player_at t px"
  by (auto simp: enforce_boundary_def is_in_corner_region_def wall_left_def wall_right_def
      wall_top_def wall_bottom_def goal_config_def player_at_def)

lemma e_boundary_ball: "- 100 \<le> bx \<Longrightarrow> bx < 0 \<Longrightarrow>
  enforce_boundary goal_config (ball_in_goal bx bv) (radius (ball_in_goal bx bv)) True
   = ball_in_goal bx bv"
  by (simp add: enforce_boundary_def is_in_corner_region_def wall_left_def wall_right_def
      wall_top_def wall_bottom_def goal_config_def ball_in_goal_def)

lemma e_pb: "- 100 \<le> bx \<Longrightarrow> bx < 0 \<Longrightarrow> px = 250 \<or> px = 750 \<Longrightarrow>
  resolve_circle_collision (player_at t px) (radius (player_at t px))
     (ball_in_goal bx bv) (radius (ball_in_goal bx bv))
     (mass (player_at t px)) (mass (ball_in_goal bx bv)) (9 / 10)
   = Inr (player_at t px, ball_in_goal bx bv, False)"
proof -
  assume a: "- 100 \<le> bx" "bx < 0" "px = 250 \<or> px = 750"
  have "sqrt ((bx - px)\<^sup>2 + (300 - 300)\<^sup>2) = \<bar>bx - px\<bar>" by simp
  moreover have "30 \<le> \<bar>bx - px\<bar>" using a by auto
  ultimately show ?thesis
    by (simp add: resolve_circle_collision_def player_at_def ball_in_goal_def)
qed

lemma e_pp:
  "resolve_circle_collision (player_at 0 250) (radius (player_at 0 250))
     (player_at 1 750) (radius (player_at 1 750))
     (mass (player_at 0 250)) (mass (player_at 1 750)) (1 / 2)
   = Inr (player_at 0 250, player_at 1 750, False)"
  by (simp add: resolve_circle_collision_def player_at_def)

lemma e_pass: "- 100 \<le> bx \<Longrightarrow> bx < 0 \<Longrightarrow>
  collision_pass goal_config [player_at 0 250, player_at 1 750] (ball_in_goal bx bv)
   = Inr ([player_at 0 250, player_at 1 750], ball_in_goal bx bv, False)"
  by (simp add: collision_pass_def e_boundary_player e_boundary_ball e_pb e_pp)

lemma e_collisions: "- 100 \<le> bx \<Longrightarrow> bx < 0 \<Longrightarrow>
  handle_all_collisions goal_config [player_at 0 250, player_at 1 750] (ball_in_goal bx bv) gs
   = Inr ([player_at 0 250, player_at 1 750], ball_in_goal bx bv)"
  by (simp add: handle_all_collisions_def numeral_eq_Suc e_pass)

lemma e_goal: "bx \<le> - 10 \<Longrightarrow>
  check_goal goal_config (ball_in_goal bx bv) (setup_goals goal_config) = Some 1"
  by (simp add: check_goal_setup setup_goals_def top_g_def bottom_g_def goal_config_def
      ball_in_goal_def)

definition match_state :: "Ball \<Rightarrow> int list \<Rightarrow> int \<Rightarrow> int \<Rightarrow> int option \<Rightarrow> Game" where
  "match_state b sc tk remaining pending =
     \<lparr>players = [player_at 0 250, player_at 1 750], ball = b,
      goals = setup_goals goal_config, score = sc, tick = tk, status = RUNNING,
      goal_celebration_remaining = remaining, pending_goal_scorer = pending\<rparr>"

lemma e_new': "new_game goal_config draws0 = match_state (ball_in_goal (- 30) 2) [0, 0] 0 0 None"
  by (simp add: e_new match_state_def ball_in_goal_def)

lemma e_step_play:
  "step_play goal_config idle_actions (match_state (ball_in_goal (- 30) 2) [0, 0] 0 0 None)
   = Inr (match_state (ball_in_goal (- 28) 1) [0, 0] 1 1 (Some 1), Some 1)"
proof -
  have u: "update_positions goal_config [player_at 0 250, player_at 1 750] (ball_in_goal (- 30) 2)
           = Inr ([player_at 0 250, player_at 1 750], ball_in_goal (- 28) 1)"
    using e_update [of 2 "- 30"] by simp
  have h: "handle_all_collisions goal_config [player_at 0 250, player_at 1 750]
             (ball_in_goal (- 28) 1) (setup_goals goal_config)
           = Inr ([player_at 0 250, player_at 1 750], ball_in_goal (- 28) 1)"
    by (rule e_collisions) simp_all
  have c: "check_goal goal_config (ball_in_goal (- 28) 1) (setup_goals goal_config) = Some 1"
    by (rule e_goal) simp
  have t: "goal_celebration_ticks goal_config = 1" "max_ticks goal_config = 3000"
    by (simp_all add: goal_config_def)
  show ?thesis
    by (simp add: step_play_def match_state_def e_apply e_kicks u h c t finish_tick_def
        del: apply_actions.simps process_kicks.simps)
qed

lemma e_step1:
  "step goal_config idle_agents [0, 1] draws0 (new_game goal_config draws0)
   = Some (Inr (match_state (ball_in_goal (- 28) 1) [0, 0] 1 1 (Some 1), Some 1))"
proof -
  have s: "status (match_state (ball_in_goal (- 30) 2) [0, 0] 0 0 None) = RUNNING"
    "goal_celebration_remaining (match_state (ball_in_goal (- 30) 2) [0, 0] 0 0 None) = 0"
    by (simp_all add: match_state_def)
  have a: "get_agent_actions idle_agents st [0, Suc 0] = Some (Inr idle_actions)" for st
    using e_acts [of st] by simp
  show ?thesis
    by (simp add: step_def e_new' s a e_step_play)
qed

lemma e_reset:
  "reset_positions goal_config draws0 (match_state b sc tk remaining pending)
   = Inr (match_state (b\<lparr>x := - 30, y := 300, vx := 2, vy := 0\<rparr>) sc tk remaining pending)"
proof -
  have p: "initial_player_positions goal_config 0 = [(250, 300)]"
    "initial_player_positions goal_config 1 = [(750, 300)]"
    "initial_ball_position goal_config = (- 30, 300)"
    by (simp_all add: goal_config_def)
  have i: "py_index [(250::real, 300::real)] 0 = Inr (250, 300)"
    "py_index [(750::real, 300::real)] 0 = Inr (750, 300)"
    by (simp_all add: py_index_def subscript_def)
  have r: "reset_players goal_config draws0 0 [player_at 0 250, player_at 1 750]
           = Inr [player_at 0 250, player_at 1 750]"
    by (simp add: player_at_def p i draws0_def)
  have d: "angle draws0 = 0" "speed draws0 = 2" by (simp_all add: draws0_def)
  show ?thesis
    by (simp add: reset_positions_def match_state_def r p d del: reset_players.simps)
qed

lemma e_step_celebration:
  "step_celebration goal_config draws0 (match_state (ball_in_goal (- 28) 1) [0, 0] 1 1 (Some 1))
   = Inr (match_state (ball_in_goal (- 30) 2) [0, 1] 2 0 None, Some 1)"
proof -
  have u: "update_positions goal_config [player_at 0 250, player_at 1 750] (ball_in_goal (- 28) 1)
           = Inr ([player_at 0 250, player_at 1 750], ball_in_goal (- 27) (1 / 2))"
    using e_update [of 1 "- 28"] by simp
  have h: "handle_all_collisions goal_config [player_at 0 250, player_at 1 750]
             (ball_in_goal (- 27) (1 / 2)) (setup_goals goal_config)
           = Inr ([player_at 0 250, player_at 1 750], ball_in_goal (- 27) (1 / 2))"
    by (rule e_collisions) simp_all
  have inc: "py_incr [0, 0] 1 = Inr [0, 1]" by (simp add: py_incr_def subscript_def)
  have idx: "py_index [0::int, 1] 1 = Inr 1" by (simp add: py_index_def subscript_def)
  have w: "win_score goal_config = 5" "max_ticks goal_config = 3000"
    by (simp_all add: goal_config_def)
  have b: "(ball_in_goal (- 27) (1 / 2))\<lparr>x := - 30, y := 300, vx := 2, vy := 0\<rparr>
           = ball_in_goal (- 30) 2"
    by (simp add: ball_in_goal_def)
  have e: "end_celebration goal_config draws0
             (match_state (ball_in_goal (- 27) (1 / 2)) [0, 0] 1 0 (Some 1)) 1
           = Inr (match_state (ball_in_goal (- 30) 2) [0, 1] 1 0 None)"
    unfolding end_celebration_def
    apply (simp add: match_state_def inc)
    apply (simp add: e_reset [unfolded match_state_def] b idx w)
    done
  show ?thesis
    apply (simp add: step_celebration_def match_state_def u h)
    apply (simp add: e [unfolded match_state_def] finish_tick_def w)
    done
qed

lemma e_step2:
  "step goal_config idle_agents [0, 1] draws0 (match_state (ball_in_goal (- 28) 1) [0, 0] 1 1 (Some 1))
   = Some (Inr (match_state (ball_in_goal (- 30) 2) [0, 1] 2 0 None, Some 1))"
proof -
  have s: "status (match_state (ball_in_goal (- 28) 1) [0, 0] 1 1 (Some 1)) = RUNNING"
    "goal_celebration_remaining (match_state (ball_in_goal (- 28) 1) [0, 0] 1 1 (Some 1)) = 1"
    by (simp_all add: match_state_def)
  show ?thesis
    by (simp add: step_def s e_step_celebration)
qed

lemma e_draws: "valid_draws draws0"
  by (simp add: valid_draws_def draws0_def)

theorem step_score_monotone_witness:
  "reachable goal_config (match_state (ball_in_goal (- 28) 1) [0, 0] 1 1 (Some 1))
   \<and> step goal_config idle_agents [0, 1] draws0
         (match_state (ball_in_goal (- 28) 1) [0, 0] 1 1 (Some 1))
       = Some (Inr (match_state (ball_in_goal (- 30) 2) [0, 1] 2 0 None, Some 1))
   \<and> status (match_state (ball_in_goal (- 28) 1) [0, 0] 1 1 (Some 1)) = RUNNING
   \<and> goal_celebration_remaining (match_state (ball_in_goal (- 28) 1) [0, 0] 1 1 (Some 1)) = 1
   \<and> pending_goal_scorer (match_state (ball_in_goal (- 28) 1) [0, 0] 1 1 (Some 1)) = Some 1
   \<and> score (match_state (ball_in_goal (- 28) 1) [0, 0] 1 1 (Some 1)) = [0, 0]
   \<and> score (match_state (ball_in_goal (- 30) 2) [0, 1] 2 0 None)
       = (score (match_state (ball_in_goal (- 28) 1) [0, 0] 1 1 (Some 1)))
           [nat 1 := score (match_state (ball_in_goal (- 28) 1) [0, 0] 1 1 (Some 1)) ! nat 1 + 1]
   \<and> score (match_state (ball_in_goal (- 30) 2) [0, 1] 2 0 None) = [0, 1]"
proof -
  let ?g1 = "match_state (ball_in_goal (- 28) 1) [0, 0] 1 1 (Some 1)"
  let ?g2 = "match_state (ball_in_goal (- 30) 2) [0, 1] 2 0 None"
  have r0: "reachable goal_config (new_game goal_config draws0)"
    using e_draws by (rule reachable.initial)
  have r1: "reachable goal_config ?g1"
    using r0 e_draws e_step1 by (rule reachable.stepped)
  have f: "status ?g1 = RUNNING" "goal_celebration_remaining ?g1 = 1"
    "pending_goal_scorer ?g1 = Some 1" "score ?g1 = [0, 0]" "score ?g2 = [0, 1]"
    by (simp_all add: match_state_def)
  from step_score_monotone [OF r1 e_step2] f(1,2,3)
  have "score ?g2 = (score ?g1)[nat 1 := score ?g1 ! nat 1 + 1]" by auto
  with r1 e_step2 f show ?thesis by blast
qed

end
